theory Spec2Isabelle
  imports Main "HOL-Library.Word" "HOL-Library.Sublist" "HOL-Library.Code_Target_Numeral"
begin

unbundle bit_operations_syntax

section \<open>elfdeps: dependency extraction from ELF objects (tools/elfdeps.c)\<close>

text \<open>
  A shallow embedding of \<^verbatim>\<open>tools/elfdeps.c\<close>. C strings are modelled by their
  contents up to the terminating NUL, as \<open>string\<close>; a \<^verbatim>\<open>const char *\<close> that may be
  \<^verbatim>\<open>NULL\<close> is a \<open>string option\<close>. An \<^verbatim>\<open>ARGV_t\<close> is the list of its strings, and
  \<^verbatim>\<open>argvAdd\<close> appends one string at the end.
\<close>

subsection \<open>Configuration flags\<close>

text \<open>
  The six global \<^verbatim>\<open>int\<close> flags of the program. They are written only by the option
  parser and only tested for being non-zero, so each is a \<open>bool\<close>; the scan functions
  take the record as an argument.
\<close>

record config =
  soname_only :: bool
  fake_soname :: bool
  filter_soname :: bool
  require_interp :: bool
  add_arch :: bool
  add_nonarch :: bool

text \<open>The initial values of the globals: what the program runs with when no option changes them.\<close>

definition default_config :: config where
  "default_config =
     \<lparr> soname_only = False, fake_soname = True, filter_soname = True,
       require_interp = False, add_arch = False, add_nonarch = True \<rparr>"

subsection \<open>String helpers of rpmstring.h and libc\<close>

text \<open>
  Modelled from the spec: \<^verbatim>\<open>risspace\<close> is declared in \<^verbatim>\<open>rpm/rpmstring.h\<close>,
  which is not part of the sources at hand. The specification calls the characters it
  accepts "whitespace"; these are the six ASCII whitespace characters (space, tab,
  newline, carriage return, form feed, vertical tab).
\<close>

definition risspace :: "char \<Rightarrow> bool" where
  "risspace c \<longleftrightarrow>
     c = CHR '' '' \<or> c = CHR 0x09 \<or> c = CHR 0x0A \<or> c = CHR 0x0D \<or> c = CHR 0x0C \<or> c = CHR 0x0B"

text \<open>
  Modelled from the spec: \<^verbatim>\<open>rstreqn(s1, s2, n)\<close> is declared in \<^verbatim>\<open>rpm/rpmstring.h\<close>
  (absent here) as \<^verbatim>\<open>strncmp(s1, s2, n) == 0\<close>: the two strings agree on their first
  \<open>n\<close> characters, or are equal when one ends earlier.
\<close>

definition rstreqn :: "string \<Rightarrow> string \<Rightarrow> nat \<Rightarrow> bool" where
  "rstreqn s1 s2 n \<longleftrightarrow> take n s1 = take n s2"

text \<open>
  \<^verbatim>\<open>strstr(haystack, needle)\<close> of libc: the suffix of the haystack that starts at the
  first occurrence of the needle, or \<^verbatim>\<open>NULL\<close>.
\<close>

fun strstr :: "string \<Rightarrow> string \<Rightarrow> string option" where
  "strstr [] needle = (if needle = [] then Some [] else None)"
| "strstr (c # cs) needle =
     (if take (length needle) (c # cs) = needle then Some (c # cs) else strstr cs needle)"

text \<open>
  \<^verbatim>\<open>strrchr(s, c)\<close> of libc for a character \<open>c\<close> other than NUL: the suffix of \<open>s\<close>
  that starts at the last occurrence of \<open>c\<close>, or \<^verbatim>\<open>NULL\<close>.
\<close>

fun strrchr :: "string \<Rightarrow> char \<Rightarrow> string option" where
  "strrchr [] c = None"
| "strrchr (x # xs) c =
     (case strrchr xs c of
        Some r \<Rightarrow> Some r
      | None \<Rightarrow> if x = c then Some (x # xs) else None)"

subsection \<open>skipSoname\<close>

text \<open>
  The loop of \<^verbatim>\<open>skipSoname\<close> that looks for a character that is not whitespace:
  the value of \<^verbatim>\<open>sane\<close> when the loop ends.
\<close>

fun sane_scan :: "string \<Rightarrow> bool" where
  "sane_scan [] = False"
| "sane_scan (c # cs) = (if \<not> risspace c then True else sane_scan cs)"

definition skipSoname :: "config \<Rightarrow> string \<Rightarrow> bool" where
  "skipSoname cfg soname =
     (if \<not> sane_scan soname then True
      else if filter_soname cfg then
        (if strstr soname ''.so'' = None then True
         else if rstreqn soname ''ld.'' 3 \<or> rstreqn soname ''ld-'' 3 \<or>
                 rstreqn soname ''ld64.'' 3 \<or> rstreqn soname ''ld64-'' 3 then False
         else if rstreqn soname ''lib'' 3 then False
         else True)
      else False)"

subsection \<open>ELF constants and the file header\<close>

text \<open>
  Modelled from the spec: the constants of \<^verbatim>\<open>elf.h\<close>, which is a system header and
  not part of the sources at hand. The values are those of the ELF specification and
  the GNU C library. \<^verbatim>\<open>EM_AARCH64\<close>, \<^verbatim>\<open>EM_RISCV\<close> and \<^verbatim>\<open>R_RISCV_32\<close> are
  defined there, so the two conditionally compiled cases of \<^verbatim>\<open>mkarchmarker\<close> are
  part of the program.
\<close>

definition ELFCLASS64 :: "8 word" where "ELFCLASS64 = 2"
definition ELFDATA2LSB :: "8 word" where "ELFDATA2LSB = 1"
definition ELFDATA2MSB :: "8 word" where "ELFDATA2MSB = 2"
definition ELFCLASS32 :: "8 word" where "ELFCLASS32 = 1"

definition ET_EXEC :: "16 word" where "ET_EXEC = 2"
definition ET_DYN :: "16 word" where "ET_DYN = 3"

definition EM_SPARC :: "16 word" where "EM_SPARC = 2"
definition EM_386 :: "16 word" where "EM_386 = 3"
definition EM_68K :: "16 word" where "EM_68K = 4"
definition EM_MIPS :: "16 word" where "EM_MIPS = 8"
definition EM_PARISC :: "16 word" where "EM_PARISC = 15"
definition EM_SPARC32PLUS :: "16 word" where "EM_SPARC32PLUS = 18"
definition EM_PPC :: "16 word" where "EM_PPC = 20"
definition EM_PPC64 :: "16 word" where "EM_PPC64 = 21"
definition EM_S390 :: "16 word" where "EM_S390 = 22"
definition EM_ARM :: "16 word" where "EM_ARM = 40"
definition EM_FAKE_ALPHA :: "16 word" where "EM_FAKE_ALPHA = 41"
definition EM_SH :: "16 word" where "EM_SH = 42"
definition EM_SPARCV9 :: "16 word" where "EM_SPARCV9 = 43"
definition EM_IA_64 :: "16 word" where "EM_IA_64 = 50"
definition EM_X86_64 :: "16 word" where "EM_X86_64 = 62"
definition EM_AARCH64 :: "16 word" where "EM_AARCH64 = 183"
definition EM_RISCV :: "16 word" where "EM_RISCV = 243"
definition EM_ALPHA :: "16 word" where "EM_ALPHA = 0x9026"

text \<open>
  The fields of \<^verbatim>\<open>GElf_Ehdr\<close> that the program reads. \<open>ei_class\<close> and \<open>ei_data\<close>
  are \<^verbatim>\<open>e_ident[EI_CLASS]\<close> and \<^verbatim>\<open>e_ident[EI_DATA]\<close>.
\<close>

record GElf_Ehdr =
  ei_class :: "8 word"
  ei_data :: "8 word"
  e_type :: "16 word"
  e_machine :: "16 word"
  e_phnum :: "16 word"

definition mkmarker :: "GElf_Ehdr \<Rightarrow> string option" where
  "mkmarker ehdr =
     (if ei_class ehdr = ELFCLASS64 then
        (if e_machine ehdr = EM_ALPHA \<or> e_machine ehdr = EM_FAKE_ALPHA then None
         else Some ''(64bit)'')
      else None)"

definition mkarchmarker :: "GElf_Ehdr \<Rightarrow> string option" where
  "mkarchmarker ehdr =
     (let is64 = (ei_class ehdr = ELFCLASS64);
          isle = (ei_data ehdr = ELFDATA2LSB);
          m = e_machine ehdr
      in if m = EM_386 then Some ''(i386)''
         else if m = EM_68K then Some ''(m68k)''
         else if m = EM_AARCH64 then Some (if isle then ''(aarch64)'' else ''(aarch64_be)'')
         else if m = EM_ALPHA \<or> m = EM_FAKE_ALPHA then Some ''(alpha)''
         else if m = EM_ARM then Some (if isle then ''(arm)'' else ''armeb'')
         else if m = EM_IA_64 then Some ''(ia64)''
         else if m = EM_MIPS then
           Some (if is64 \<and> isle then ''(mips64le)''
                 else if is64 then ''(mips64)''
                 else if isle then ''(mipsel)''
                 else ''(mips)'')
         else if m = EM_PARISC then Some (if is64 then ''(hppa64)'' else ''hppa'')
         else if m = EM_PPC then Some (if isle then ''(ppcle)'' else ''(ppc)'')
         else if m = EM_PPC64 then Some (if isle then ''(ppc64le)'' else ''(ppc64)'')
         else if m = EM_RISCV then Some (if is64 then ''(riscv64)'' else ''(riscv32)'')
         else if m = EM_S390 then Some (if is64 then ''(s390x)'' else ''(s390)'')
         else if m = EM_SH then Some (if isle then ''(shl)'' else ''(sh)'')
         else if m = EM_SPARC \<or> m = EM_SPARC32PLUS \<or> m = EM_SPARCV9 then
           Some (if is64 then ''(sparc64)'' else ''(sparc)'')
         else if m = EM_X86_64 then Some ''(x86_64)''
         else Some (if is64 then ''(unknown64)'' else ''(unknown)''))"

subsection \<open>addDep\<close>

text \<open>
  \<^verbatim>\<open>addDep\<close> appends at most one string to the list it is given. The format
  \<^verbatim>\<open>"%s(%s)%s"\<close> of \<^verbatim>\<open>rasprintf\<close> is the concatenation written out.
\<close>

definition addDep :: "config \<Rightarrow> string list \<Rightarrow> string \<Rightarrow> string option \<Rightarrow> string option \<Rightarrow> string list" where
  "addDep cfg deps soname ver marker =
     (if skipSoname cfg soname then deps
      else
        (let dep =
               (if ver \<noteq> None \<or> marker \<noteq> None then
                  Some (soname @ ''('' @ (case ver of Some v \<Rightarrow> v | None \<Rightarrow> '''')
                          @ '')'' @ (case marker of Some m \<Rightarrow> m | None \<Rightarrow> ''''))
                else None)
         in deps @ [case dep of Some d \<Rightarrow> d | None \<Rightarrow> soname]))"

subsection \<open>What libelf and the file system hand to the program\<close>

text \<open>
  The structural reader (libelf) and the file system are outside the program. Each
  call the program makes is a field here, and a call that can return \<^verbatim>\<open>NULL\<close> or fail
  has an \<open>option\<close> result. Only the fields of the libelf structures that the program
  reads are kept.
\<close>

record GElf_Phdr =
  p_type :: "32 word"
  p_offset :: "64 word"

record GElf_Shdr =
  sh_type :: "32 word"
  sh_link :: "32 word"
  sh_info :: "32 word"
  sh_size :: "64 word"
  sh_entsize :: "64 word"

record GElf_Dyn =
  d_tag :: "64 word"
  d_val :: "64 word"

record GElf_Verdef =
  vd_flags :: "16 word"
  vd_cnt :: "16 word"
  vd_aux :: "32 word"
  vd_next :: "32 word"

record GElf_Verdaux =
  vda_name :: "32 word"
  vda_next :: "32 word"

record GElf_Verneed =
  vn_cnt :: "16 word"
  vn_file :: "32 word"
  vn_aux :: "32 word"
  vn_next :: "32 word"

record GElf_Vernaux =
  vna_name :: "32 word"
  vna_next :: "32 word"

text \<open>
  One \<^verbatim>\<open>Elf_Data\<close> buffer, seen through the accessors the program calls on it:
  \<^verbatim>\<open>gelf_getdyn(data, i, _)\<close> by index, the four version accessors by the byte offset
  the program computes in an \<^verbatim>\<open>unsigned int\<close>.
\<close>

record Elf_Data =
  gelf_getdyn :: "nat \<Rightarrow> GElf_Dyn option"
  gelf_getverdef :: "32 word \<Rightarrow> GElf_Verdef option"
  gelf_getverdaux :: "32 word \<Rightarrow> GElf_Verdaux option"
  gelf_getverneed :: "32 word \<Rightarrow> GElf_Verneed option"
  gelf_getvernaux :: "32 word \<Rightarrow> GElf_Vernaux option"

text \<open>
  A section: the result of \<^verbatim>\<open>gelf_getshdr\<close>, and the buffers that repeated calls of
  \<^verbatim>\<open>elf_getdata\<close> return before \<^verbatim>\<open>NULL\<close>.
\<close>

record Elf_Scn =
  gelf_getshdr :: "GElf_Shdr option"
  elf_getdata :: "Elf_Data list"

datatype Elf_Kind = ELF_K_NONE | ELF_K_AR | ELF_K_COFF | ELF_K_ELF

text \<open>
  An \<^verbatim>\<open>Elf\<close> handle. \<open>elf_rawfile\<close> is the mapped file (its length is the
  \<^verbatim>\<open>maxsize\<close> libelf reports); \<open>elf_nextscn\<close> lists the sections in the order in
  which \<^verbatim>\<open>elf_nextscn\<close> returns them; \<open>elf_strptr\<close> takes the section index and the
  offset.
\<close>

record Elf =
  elf_kind :: Elf_Kind
  gelf_getehdr :: "GElf_Ehdr option"
  gelf_getphdr :: "nat \<Rightarrow> GElf_Phdr option"
  elf_rawfile :: "string option"
  elf_nextscn :: "Elf_Scn list"
  elf_strptr :: "nat \<Rightarrow> nat \<Rightarrow> string option"

text \<open>
  A file that \<^verbatim>\<open>open\<close> has opened: \<open>fstat\<close> is the \<^verbatim>\<open>st_mode\<close> that \<^verbatim>\<open>fstat\<close>
  reports (\<open>None\<close> when it fails), \<open>elf_begin\<close> the handle (\<open>None\<close> for \<^verbatim>\<open>NULL\<close>).
  The file system maps a path to such a file, or to \<open>None\<close> when \<^verbatim>\<open>open\<close> fails.
\<close>

record opened_file =
  fstat :: "32 word option"
  elf_begin :: "Elf option"

type_synonym filesystem = "string \<Rightarrow> opened_file option"

text \<open>
  Modelled from the spec: further constants of the system headers \<^verbatim>\<open>elf.h\<close> and
  \<^verbatim>\<open>sys/stat.h\<close>, absent from the sources at hand, with the values of the ELF
  specification and of POSIX.
\<close>

definition PT_INTERP :: "32 word" where "PT_INTERP = 3"
definition SHT_DYNAMIC :: "32 word" where "SHT_DYNAMIC = 6"
definition SHT_GNU_verdef :: "32 word" where "SHT_GNU_verdef = 0x6ffffffd"
definition SHT_GNU_verneed :: "32 word" where "SHT_GNU_verneed = 0x6ffffffe"
definition DT_NEEDED :: "64 word" where "DT_NEEDED = 1"
definition DT_HASH :: "64 word" where "DT_HASH = 4"
definition DT_SONAME :: "64 word" where "DT_SONAME = 14"
definition DT_DEBUG :: "64 word" where "DT_DEBUG = 21"
definition DT_GNU_HASH :: "64 word" where "DT_GNU_HASH = 0x6ffffef5"
definition VER_FLG_BASE :: "16 word" where "VER_FLG_BASE = 1"
definition S_IXUSR :: "32 word" where "S_IXUSR = 0x40"
definition S_IXGRP :: "32 word" where "S_IXGRP = 0x8"
definition S_IXOTH :: "32 word" where "S_IXOTH = 0x1"
definition EXIT_FAILURE :: int where "EXIT_FAILURE = 1"

subsection \<open>The per-object state\<close>

text \<open>
  \<^verbatim>\<open>struct elfInfo_s\<close> without its \<^verbatim>\<open>elf\<close> pointer, which the functions below take
  as an argument of its own. The three \<^verbatim>\<open>got...\<close> flags and \<^verbatim>\<open>isDSO\<close> only ever hold
  0 or 1; \<^verbatim>\<open>isExec\<close> holds the masked mode bits.
\<close>

record elfInfo =
  isDSO :: bool
  isExec :: "32 word"
  gotDEBUG :: bool
  gotHASH :: bool
  gotGNUHASH :: bool
  soname :: "string option"
  interp :: "string option"
  marker :: "string option"
  archmarker :: "string option"
  requires :: "string list"
  provides :: "string list"

text \<open>The state \<^verbatim>\<open>rcalloc(1, sizeof(*ei))\<close> returns: every field zero.\<close>

definition elfInfo_zero :: elfInfo where
  "elfInfo_zero =
     \<lparr> isDSO = False, isExec = 0, gotDEBUG = False, gotHASH = False, gotGNUHASH = False,
       soname = None, interp = None, marker = None, archmarker = None,
       requires = [], provides = [] \<rparr>"

text \<open>
  Where C leaves the behaviour undefined or the process is killed, the model stops with
  one of these: the division by a zero \<^verbatim>\<open>sh_entsize\<close>, the overflow of an \<^verbatim>\<open>int\<close> loop
  counter, and \<^verbatim>\<open>rstrdup\<close> running past the end of the mapped file.
\<close>

datatype trap = DivideByZero | SignedOverflow | ReadOutOfBounds

definition genRequires :: "elfInfo \<Rightarrow> bool" where
  "genRequires ei \<longleftrightarrow> \<not> (interp ei \<noteq> None \<and> isExec ei = 0)"

text \<open>
  The pair of statements that the program repeats wherever it emits a dependency:
  \<^verbatim>\<open>if (add_nonarch) addDep(deps, soname, ver, ei->marker);
  if (add_arch) addDep(deps, soname, ver, ei->archmarker);\<close>
\<close>

definition addDeps :: "config \<Rightarrow> elfInfo \<Rightarrow> string list \<Rightarrow> string \<Rightarrow> string option \<Rightarrow> string list" where
  "addDeps cfg ei deps name ver =
     (let deps1 = (if add_nonarch cfg then addDep cfg deps name ver (marker ei) else deps)
      in if add_arch cfg then addDep cfg deps1 name ver (archmarker ei) else deps1)"

subsection \<open>processVerDef\<close>

text \<open>
  The inner loop \<^verbatim>\<open>for (int j = def->vd_cnt; --j >= 0; )\<close>. The state it changes is
  \<^verbatim>\<open>auxoffset\<close>, the local \<^verbatim>\<open>soname\<close> and the object state; the first is dead after
  the loop. Only the branch for a base record advances \<^verbatim>\<open>auxoffset\<close>.
\<close>

function processVerDef_aux ::
  "config \<Rightarrow> Elf \<Rightarrow> GElf_Shdr \<Rightarrow> Elf_Data \<Rightarrow> GElf_Verdef \<Rightarrow> int \<Rightarrow> 32 word \<Rightarrow>
   string option \<Rightarrow> elfInfo \<Rightarrow> string option \<times> elfInfo" where
  "processVerDef_aux cfg elf shdr data def j auxoffset sn ei =
     (if j - 1 \<ge> 0 then
        (case gelf_getverdaux data auxoffset of
           None \<Rightarrow> (sn, ei)
         | Some aux \<Rightarrow>
             (case elf_strptr elf (unat (sh_link shdr)) (unat (vda_name aux)) of
                None \<Rightarrow> (sn, ei)
              | Some s \<Rightarrow>
                  if vd_flags def AND VER_FLG_BASE \<noteq> 0 then
                    processVerDef_aux cfg elf shdr data def (j - 1)
                      (auxoffset + vda_next aux) (Some s) ei
                  else
                    (case sn of
                       Some name \<Rightarrow>
                         if \<not> soname_only cfg then
                           processVerDef_aux cfg elf shdr data def (j - 1) auxoffset sn
                             (ei\<lparr>provides := addDeps cfg ei (provides ei) name (Some s)\<rparr>)
                         else processVerDef_aux cfg elf shdr data def (j - 1) auxoffset sn ei
                     | None \<Rightarrow>
                         processVerDef_aux cfg elf shdr data def (j - 1) auxoffset sn ei)))
      else (sn, ei))"
  by pat_completeness auto
termination
  by (relation "measure (\<lambda>(cfg, elf, shdr, data, def, j, auxoffset, sn, ei). nat j)") auto

text \<open>
  The outer loop \<^verbatim>\<open>for (int i = shdr->sh_info; --i >= 0; )\<close> over the records of one
  buffer, following \<^verbatim>\<open>vd_next\<close>. The offsets are \<^verbatim>\<open>unsigned int\<close> and wrap.
\<close>

function processVerDef_loop ::
  "config \<Rightarrow> Elf \<Rightarrow> GElf_Shdr \<Rightarrow> Elf_Data \<Rightarrow> int \<Rightarrow> 32 word \<Rightarrow>
   string option \<Rightarrow> elfInfo \<Rightarrow> string option \<times> elfInfo" where
  "processVerDef_loop cfg elf shdr data i offset sn ei =
     (if i - 1 \<ge> 0 then
        (case gelf_getverdef data offset of
           None \<Rightarrow> (sn, ei)
         | Some def \<Rightarrow>
             (case processVerDef_aux cfg elf shdr data def (uint (vd_cnt def))
                     (offset + vd_aux def) sn ei of
                (sn', ei') \<Rightarrow>
                  processVerDef_loop cfg elf shdr data (i - 1) (offset + vd_next def) sn' ei'))
      else (sn, ei))"
  by pat_completeness auto
termination
  by (relation "measure (\<lambda>(cfg, elf, shdr, data, i, offset, sn, ei). nat i)") auto

text \<open>
  The loop \<^verbatim>\<open>while ((data = elf_getdata(scn, data)) != NULL)\<close>. The counter starts at
  \<^verbatim>\<open>(int) shdr->sh_info\<close>; decrementing it overflows when that is \<^verbatim>\<open>INT_MIN\<close>.
\<close>

fun processVerDef_datas ::
  "config \<Rightarrow> Elf \<Rightarrow> GElf_Shdr \<Rightarrow> Elf_Data list \<Rightarrow> string option \<Rightarrow> elfInfo \<Rightarrow> trap + elfInfo" where
  "processVerDef_datas cfg elf shdr [] sn ei = Inr ei"
| "processVerDef_datas cfg elf shdr (data # rest) sn ei =
     (if sint (sh_info shdr) = - (2 ^ 31) then Inl SignedOverflow
      else
        (case processVerDef_loop cfg elf shdr data (sint (sh_info shdr)) 0 sn ei of
           (sn', ei') \<Rightarrow> processVerDef_datas cfg elf shdr rest sn' ei'))"

definition processVerDef :: "config \<Rightarrow> Elf \<Rightarrow> Elf_Scn \<Rightarrow> GElf_Shdr \<Rightarrow> elfInfo \<Rightarrow> trap + elfInfo" where
  "processVerDef cfg elf scn shdr ei = processVerDef_datas cfg elf shdr (elf_getdata scn) None ei"

subsection \<open>processVerNeed\<close>

text \<open>The inner loop over the auxiliary entries of one requirement record.\<close>

function processVerNeed_aux ::
  "config \<Rightarrow> Elf \<Rightarrow> GElf_Shdr \<Rightarrow> Elf_Data \<Rightarrow> int \<Rightarrow> 32 word \<Rightarrow>
   string option \<Rightarrow> elfInfo \<Rightarrow> elfInfo" where
  "processVerNeed_aux cfg elf shdr data j auxoffset sn ei =
     (if j - 1 \<ge> 0 then
        (case gelf_getvernaux data auxoffset of
           None \<Rightarrow> ei
         | Some aux \<Rightarrow>
             (case elf_strptr elf (unat (sh_link shdr)) (unat (vna_name aux)) of
                None \<Rightarrow> ei
              | Some s \<Rightarrow>
                  (case sn of
                     Some name \<Rightarrow>
                       if genRequires ei \<and> \<not> soname_only cfg then
                         processVerNeed_aux cfg elf shdr data (j - 1) (auxoffset + vna_next aux) sn
                           (ei\<lparr>requires := addDeps cfg ei (requires ei) name (Some s)\<rparr>)
                       else
                         processVerNeed_aux cfg elf shdr data (j - 1) (auxoffset + vna_next aux) sn ei
                   | None \<Rightarrow>
                       processVerNeed_aux cfg elf shdr data (j - 1) (auxoffset + vna_next aux) sn ei)))
      else ei)"
  by pat_completeness auto
termination
  by (relation "measure (\<lambda>(cfg, elf, shdr, data, j, auxoffset, sn, ei). nat j)") auto

text \<open>The outer loop over the requirement records of one buffer, following \<^verbatim>\<open>vn_next\<close>.\<close>

function processVerNeed_loop ::
  "config \<Rightarrow> Elf \<Rightarrow> GElf_Shdr \<Rightarrow> Elf_Data \<Rightarrow> int \<Rightarrow> 32 word \<Rightarrow>
   string option \<Rightarrow> elfInfo \<Rightarrow> string option \<times> elfInfo" where
  "processVerNeed_loop cfg elf shdr data i offset sn ei =
     (if i - 1 \<ge> 0 then
        (case gelf_getverneed data offset of
           None \<Rightarrow> (sn, ei)
         | Some need \<Rightarrow>
             (case elf_strptr elf (unat (sh_link shdr)) (unat (vn_file need)) of
                None \<Rightarrow> (sn, ei)
              | Some s \<Rightarrow>
                  processVerNeed_loop cfg elf shdr data (i - 1) (offset + vn_next need) (Some s)
                    (processVerNeed_aux cfg elf shdr data (uint (vn_cnt need))
                       (offset + vn_aux need) (Some s) ei)))
      else (sn, ei))"
  by pat_completeness auto
termination
  by (relation "measure (\<lambda>(cfg, elf, shdr, data, i, offset, sn, ei). nat i)") auto

fun processVerNeed_datas ::
  "config \<Rightarrow> Elf \<Rightarrow> GElf_Shdr \<Rightarrow> Elf_Data list \<Rightarrow> string option \<Rightarrow> elfInfo \<Rightarrow> trap + elfInfo" where
  "processVerNeed_datas cfg elf shdr [] sn ei = Inr ei"
| "processVerNeed_datas cfg elf shdr (data # rest) sn ei =
     (if sint (sh_info shdr) = - (2 ^ 31) then Inl SignedOverflow
      else
        (case processVerNeed_loop cfg elf shdr data (sint (sh_info shdr)) 0 sn ei of
           (sn', ei') \<Rightarrow> processVerNeed_datas cfg elf shdr rest sn' ei'))"

definition processVerNeed :: "config \<Rightarrow> Elf \<Rightarrow> Elf_Scn \<Rightarrow> GElf_Shdr \<Rightarrow> elfInfo \<Rightarrow> trap + elfInfo" where
  "processVerNeed cfg elf scn shdr ei = processVerNeed_datas cfg elf shdr (elf_getdata scn) None ei"

subsection \<open>processDynamic\<close>

text \<open>The \<^verbatim>\<open>switch (dyn->d_tag)\<close> of \<^verbatim>\<open>processDynamic\<close>, for one entry.\<close>

definition processDynamic_switch :: "config \<Rightarrow> Elf \<Rightarrow> GElf_Shdr \<Rightarrow> GElf_Dyn \<Rightarrow> elfInfo \<Rightarrow> elfInfo" where
  "processDynamic_switch cfg elf shdr dyn ei =
     (if d_tag dyn = DT_HASH then ei\<lparr>gotHASH := True\<rparr>
      else if d_tag dyn = DT_GNU_HASH then ei\<lparr>gotGNUHASH := True\<rparr>
      else if d_tag dyn = DT_DEBUG then ei\<lparr>gotDEBUG := True\<rparr>
      else if d_tag dyn = DT_SONAME then
        (case elf_strptr elf (unat (sh_link shdr)) (unat (d_val dyn)) of
           Some s \<Rightarrow> ei\<lparr>soname := Some s\<rparr>
         | None \<Rightarrow> ei)
      else if d_tag dyn = DT_NEEDED then
        (if genRequires ei then
           (case elf_strptr elf (unat (sh_link shdr)) (unat (d_val dyn)) of
              Some s \<Rightarrow> ei\<lparr>requires := addDeps cfg ei (requires ei) s None\<rparr>
            | None \<Rightarrow> ei)
         else ei)
      else ei)"

text \<open>
  The loop \<^verbatim>\<open>for (int i = 0; i < (shdr->sh_size / shdr->sh_entsize); i++)\<close> over one
  buffer, with \<open>n\<close> the quotient. The counter is an \<^verbatim>\<open>int\<close>: incrementing it past
  \<^verbatim>\<open>INT_MAX\<close> overflows.
\<close>

function processDynamic_loop ::
  "config \<Rightarrow> Elf \<Rightarrow> GElf_Shdr \<Rightarrow> Elf_Data \<Rightarrow> nat \<Rightarrow> nat \<Rightarrow> elfInfo \<Rightarrow> trap + elfInfo" where
  "processDynamic_loop cfg elf shdr data n i ei =
     (if i < n then
        (case gelf_getdyn data i of
           None \<Rightarrow> Inr ei
         | Some dyn \<Rightarrow>
             if i = 2 ^ 31 - 1 then Inl SignedOverflow
             else processDynamic_loop cfg elf shdr data n (i + 1)
                    (processDynamic_switch cfg elf shdr dyn ei))
      else Inr ei)"
  by pat_completeness auto
termination
  by (relation "measure (\<lambda>(cfg, elf, shdr, data, n, i, ei). n - i)") auto

text \<open>
  The loop over the buffers of the section. The quotient is computed when the loop
  condition is first evaluated, so a buffer of a section whose \<^verbatim>\<open>sh_entsize\<close> is zero
  stops the program.
\<close>

fun processDynamic_datas ::
  "config \<Rightarrow> Elf \<Rightarrow> GElf_Shdr \<Rightarrow> Elf_Data list \<Rightarrow> elfInfo \<Rightarrow> trap + elfInfo" where
  "processDynamic_datas cfg elf shdr [] ei = Inr ei"
| "processDynamic_datas cfg elf shdr (data # rest) ei =
     (if sh_entsize shdr = 0 then Inl DivideByZero
      else
        (case processDynamic_loop cfg elf shdr data (unat (sh_size shdr div sh_entsize shdr)) 0 ei of
           Inl t \<Rightarrow> Inl t
         | Inr ei' \<Rightarrow> processDynamic_datas cfg elf shdr rest ei'))"

definition processDynamic :: "config \<Rightarrow> Elf \<Rightarrow> Elf_Scn \<Rightarrow> GElf_Shdr \<Rightarrow> elfInfo \<Rightarrow> trap + elfInfo" where
  "processDynamic cfg elf scn shdr ei = processDynamic_datas cfg elf shdr (elf_getdata scn) ei"

subsection \<open>processSections and processProgHeaders\<close>

text \<open>
  The loop over the sections that \<^verbatim>\<open>elf_nextscn\<close> returns; it ends at the first one
  whose header \<^verbatim>\<open>gelf_getshdr\<close> cannot deliver.
\<close>

fun processSections_loop :: "config \<Rightarrow> Elf \<Rightarrow> Elf_Scn list \<Rightarrow> elfInfo \<Rightarrow> trap + elfInfo" where
  "processSections_loop cfg elf [] ei = Inr ei"
| "processSections_loop cfg elf (scn # rest) ei =
     (case gelf_getshdr scn of
        None \<Rightarrow> Inr ei
      | Some shdr \<Rightarrow>
          (case (if sh_type shdr = SHT_GNU_verdef then processVerDef cfg elf scn shdr ei
                 else if sh_type shdr = SHT_GNU_verneed then processVerNeed cfg elf scn shdr ei
                 else if sh_type shdr = SHT_DYNAMIC then processDynamic cfg elf scn shdr ei
                 else Inr ei) of
             Inl t \<Rightarrow> Inl t
           | Inr ei' \<Rightarrow> processSections_loop cfg elf rest ei'))"

definition processSections :: "config \<Rightarrow> Elf \<Rightarrow> elfInfo \<Rightarrow> trap + elfInfo" where
  "processSections cfg elf ei = processSections_loop cfg elf (elf_nextscn elf) ei"

text \<open>
  \<^verbatim>\<open>rstrdup(filedata + off)\<close>: the bytes of the mapped file from \<open>off\<close> up to the
  first NUL. When there is no NUL before the end of the file, the copy reads past the
  mapping (\<open>None\<close>).
\<close>

definition rstrdup_at :: "string \<Rightarrow> nat \<Rightarrow> string option" where
  "rstrdup_at filedata off =
     (if CHR 0x00 \<in> set (drop off filedata)
      then Some (takeWhile (\<lambda>c. c \<noteq> CHR 0x00) (drop off filedata))
      else None)"

function processProgHeaders_loop :: "Elf \<Rightarrow> GElf_Ehdr \<Rightarrow> nat \<Rightarrow> elfInfo \<Rightarrow> trap + elfInfo" where
  "processProgHeaders_loop elf ehdr i ei =
     (if i < unat (e_phnum ehdr) then
        (case gelf_getphdr elf i of
           None \<Rightarrow> processProgHeaders_loop elf ehdr (i + 1) ei
         | Some phdr \<Rightarrow>
             if p_type phdr = PT_INTERP then
               (case elf_rawfile elf of
                  None \<Rightarrow> processProgHeaders_loop elf ehdr (i + 1) ei
                | Some filedata \<Rightarrow>
                    if unat (p_offset phdr) < length filedata then
                      (case rstrdup_at filedata (unat (p_offset phdr)) of
                         None \<Rightarrow> Inl ReadOutOfBounds
                       | Some s \<Rightarrow> Inr (ei\<lparr>interp := Some s\<rparr>))
                    else processProgHeaders_loop elf ehdr (i + 1) ei)
             else processProgHeaders_loop elf ehdr (i + 1) ei)
      else Inr ei)"
  by pat_completeness auto
termination
  by (relation "measure (\<lambda>(elf, ehdr, i, ei). unat (e_phnum ehdr) - i)") auto

definition processProgHeaders :: "Elf \<Rightarrow> GElf_Ehdr \<Rightarrow> elfInfo \<Rightarrow> trap + elfInfo" where
  "processProgHeaders elf ehdr ei = processProgHeaders_loop elf ehdr 0 ei"

subsection \<open>processFile and main\<close>

text \<open>
  The block of \<^verbatim>\<open>processFile\<close> guarded by
  \<^verbatim>\<open>if (ehdr->e_type == ET_DYN || ehdr->e_type == ET_EXEC)\<close>: the markers, the two
  kind flags and the two scans, from the zeroed state.
\<close>

definition processFile_scan :: "config \<Rightarrow> Elf \<Rightarrow> 32 word \<Rightarrow> GElf_Ehdr \<Rightarrow> trap + elfInfo" where
  "processFile_scan cfg elf st_mode ehdr =
     (if e_type ehdr = ET_DYN \<or> e_type ehdr = ET_EXEC then
        (case processProgHeaders elf ehdr
                (elfInfo_zero\<lparr> marker := mkmarker ehdr, archmarker := mkarchmarker ehdr,
                               isDSO := (e_type ehdr = ET_DYN),
                               isExec := st_mode AND (S_IXUSR OR S_IXGRP OR S_IXOTH) \<rparr>) of
           Inl t \<Rightarrow> Inl t
         | Inr ei \<Rightarrow> processSections cfg elf ei)
      else Inr elfInfo_zero)"

text \<open>
  The three steps of \<^verbatim>\<open>processFile\<close> after the scan: the requirement for a loader
  that knows \<^verbatim>\<open>DT_GNU_HASH\<close>, the provide for the soname (real or taken from the base
  name of the path), and the requirement for the interpreter.
\<close>

definition processFile_gnuhash :: "config \<Rightarrow> elfInfo \<Rightarrow> elfInfo" where
  "processFile_gnuhash cfg ei =
     (if genRequires ei \<and> gotGNUHASH ei \<and> \<not> gotHASH ei \<and> \<not> soname_only cfg
      then ei\<lparr>requires := requires ei @ [''rtld(GNU_HASH)'']\<rparr>
      else ei)"

definition processFile_soname :: "config \<Rightarrow> string \<Rightarrow> elfInfo \<Rightarrow> elfInfo" where
  "processFile_soname cfg fn ei =
     (if isDSO ei \<and> \<not> gotDEBUG ei then
        (let ei1 = (if soname ei = None \<and> fake_soname cfg
                    then ei\<lparr>soname := Some (case strrchr fn CHR ''/'' of
                                               Some bn \<Rightarrow> tl bn
                                             | None \<Rightarrow> fn)\<rparr>
                    else ei)
         in case soname ei1 of
              Some name \<Rightarrow> ei1\<lparr>provides := addDeps cfg ei1 (provides ei1) name None\<rparr>
            | None \<Rightarrow> ei1)
      else ei)"

definition processFile_interp :: "config \<Rightarrow> elfInfo \<Rightarrow> elfInfo" where
  "processFile_interp cfg ei =
     (case interp ei of
        Some p \<Rightarrow> if require_interp cfg then ei\<lparr>requires := requires ei @ [p]\<rparr> else ei
      | None \<Rightarrow> ei)"

text \<open>
  \<^verbatim>\<open>processFile(fn, dtype)\<close>: the return code and the strings printed on standard
  output, one \<^verbatim>\<open>fprintf(stdout, "%s\n", *dep)\<close> each, in order. Every \<^verbatim>\<open>goto exit\<close>
  leaves with the initial \<^verbatim>\<open>rc = 1\<close> and nothing printed.
\<close>

definition processFile :: "config \<Rightarrow> filesystem \<Rightarrow> string \<Rightarrow> bool \<Rightarrow> trap + (int \<times> string list)" where
  "processFile cfg fs fn dtype =
     (case fs fn of
        None \<Rightarrow> Inr (1, [])
      | Some fd \<Rightarrow>
          (case fstat fd of
             None \<Rightarrow> Inr (1, [])
           | Some st_mode \<Rightarrow>
               (case elf_begin fd of
                  None \<Rightarrow> Inr (1, [])
                | Some elf \<Rightarrow>
                    if elf_kind elf \<noteq> ELF_K_ELF then Inr (1, [])
                    else
                      (case gelf_getehdr elf of
                         None \<Rightarrow> Inr (1, [])
                       | Some ehdr \<Rightarrow>
                           (case processFile_scan cfg elf st_mode ehdr of
                              Inl t \<Rightarrow> Inl t
                            | Inr ei \<Rightarrow>
                                (let ei1 = processFile_gnuhash cfg ei;
                                     ei2 = processFile_soname cfg fn ei1;
                                     ei3 = processFile_interp cfg ei2
                                 in Inr (0, if dtype then requires ei3 else provides ei3)))))))"

text \<open>
  The two loops of \<^verbatim>\<open>main\<close> over the paths (arguments, or lines of standard input)
  have the same body: \<^verbatim>\<open>if (processFile(fn, requires)) rc = EXIT_FAILURE;\<close>. The model
  takes the list of paths and returns the exit status with everything printed.
\<close>

fun main_loop ::
  "config \<Rightarrow> filesystem \<Rightarrow> bool \<Rightarrow> string list \<Rightarrow> int \<Rightarrow> string list \<Rightarrow> trap + (int \<times> string list)" where
  "main_loop cfg fs dtype [] rc out = Inr (rc, out)"
| "main_loop cfg fs dtype (fn # fns) rc out =
     (case processFile cfg fs fn dtype of
        Inl t \<Rightarrow> Inl t
      | Inr (r, lines) \<Rightarrow>
          main_loop cfg fs dtype fns (if r \<noteq> 0 then EXIT_FAILURE else rc) (out @ lines))"

definition main :: "config \<Rightarrow> filesystem \<Rightarrow> bool \<Rightarrow> string list \<Rightarrow> trap + (int \<times> string list)" where
  "main cfg fs requires_flag paths = main_loop cfg fs requires_flag paths 0 []"

subsection \<open>Predicates used to state the properties\<close>

text \<open>
  \<open>same_gate ei ei'\<close>: going from \<open>ei\<close> to \<open>ei'\<close> leaves the two fields that
  \<^verbatim>\<open>genRequires\<close> reads as they are, and the requires list too when the gate is closed.
\<close>

definition same_gate :: "elfInfo \<Rightarrow> elfInfo \<Rightarrow> bool" where
  "same_gate ei ei' \<longleftrightarrow>
     interp ei' = interp ei \<and> isExec ei' = isExec ei \<and>
     (\<not> genRequires ei \<longrightarrow> requires ei' = requires ei)"

text \<open>
  \<open>same_hash ei ei'\<close>: the two hash flags are the same in \<open>ei\<close> and \<open>ei'\<close>.
\<close>

definition same_hash :: "elfInfo \<Rightarrow> elfInfo \<Rightarrow> bool" where
  "same_hash ei ei' \<longleftrightarrow> gotHASH ei' = gotHASH ei \<and> gotGNUHASH ei' = gotGNUHASH ei"

text \<open>
  The guards of \<^verbatim>\<open>processFile\<close> that come before \<^verbatim>\<open>rc = 0\<close>: the path opens,
  \<^verbatim>\<open>fstat\<close> succeeds, \<^verbatim>\<open>elf_begin\<close> returns a handle of kind \<^verbatim>\<open>ELF_K_ELF\<close>, and
  \<^verbatim>\<open>gelf_getehdr\<close> delivers the header.
\<close>

definition passes_guards :: "filesystem \<Rightarrow> string \<Rightarrow> bool" where
  "passes_guards fs fn =
     (case fs fn of
        None \<Rightarrow> False
      | Some fd \<Rightarrow>
          (case elf_begin fd of
             None \<Rightarrow> False
           | Some elf \<Rightarrow>
               fstat fd \<noteq> None \<and> elf_kind elf = ELF_K_ELF \<and> gelf_getehdr elf \<noteq> None))"

text \<open>
  The entries of the dynamic table that the program reads: in each buffer of a section
  of type \<^verbatim>\<open>SHT_DYNAMIC\<close>, the entries from index 0 up to the count
  \<^verbatim>\<open>sh_size / sh_entsize\<close> or the first one \<^verbatim>\<open>gelf_getdyn\<close> does not deliver; over the
  sections up to the first whose header is not delivered.
\<close>

function dyn_scanned :: "Elf_Data \<Rightarrow> nat \<Rightarrow> nat \<Rightarrow> GElf_Dyn list" where
  "dyn_scanned data n i =
     (if i < n then
        (case gelf_getdyn data i of
           None \<Rightarrow> []
         | Some dyn \<Rightarrow> dyn # dyn_scanned data n (i + 1))
      else [])"
  by pat_completeness auto
termination
  by (relation "measure (\<lambda>(data, n, i). n - i)") auto

fun scns_dyns :: "Elf_Scn list \<Rightarrow> GElf_Dyn list" where
  "scns_dyns [] = []"
| "scns_dyns (scn # rest) =
     (case gelf_getshdr scn of
        None \<Rightarrow> []
      | Some shdr \<Rightarrow>
          (if sh_type shdr = SHT_DYNAMIC
           then concat (map (\<lambda>data. dyn_scanned data (unat (sh_size shdr div sh_entsize shdr)) 0)
                          (elf_getdata scn))
           else [])
          @ scns_dyns rest)"

definition dynamic_table :: "Elf \<Rightarrow> GElf_Dyn list" where
  "dynamic_table elf = scns_dyns (elf_nextscn elf)"

text \<open>
  \<open>hash_flags ei ds ei'\<close>: going from \<open>ei\<close> to \<open>ei'\<close> sets each of the two hash flags
  exactly when it was set before or an entry of \<open>ds\<close> carries its tag.
\<close>

definition hash_flags :: "elfInfo \<Rightarrow> GElf_Dyn list \<Rightarrow> elfInfo \<Rightarrow> bool" where
  "hash_flags ei ds ei' \<longleftrightarrow>
     (gotGNUHASH ei' \<longleftrightarrow> gotGNUHASH ei \<or> DT_GNU_HASH \<in> d_tag ` set ds) \<and>
     (gotHASH ei' \<longleftrightarrow> gotHASH ei \<or> DT_HASH \<in> d_tag ` set ds)"

text \<open>
  Inputs on which the scan meets none of the three traps: every section with data has an
  \<^verbatim>\<open>sh_info\<close> other than \<^verbatim>\<open>INT_MIN\<close> when it holds version records, and a non-zero
  \<^verbatim>\<open>sh_entsize\<close> with a count below \<^verbatim>\<open>2^31\<close> when it is a dynamic section; and the
  mapped file, when there is one, ends with a NUL byte.
\<close>

definition scn_safe :: "Elf_Scn \<Rightarrow> bool" where
  "scn_safe scn =
     (case gelf_getshdr scn of
        None \<Rightarrow> True
      | Some shdr \<Rightarrow>
          elf_getdata scn = [] \<or>
          (if sh_type shdr = SHT_GNU_verdef \<or> sh_type shdr = SHT_GNU_verneed
           then sh_info shdr \<noteq> 0x80000000
           else if sh_type shdr = SHT_DYNAMIC
           then sh_entsize shdr \<noteq> 0 \<and> unat (sh_size shdr div sh_entsize shdr) < 2 ^ 31
           else True))"

definition interp_safe :: "Elf \<Rightarrow> bool" where
  "interp_safe elf =
     (case elf_rawfile elf of
        None \<Rightarrow> True
      | Some filedata \<Rightarrow> filedata = [] \<or> last filedata = CHR 0x00)"

subsection \<open>Example objects\<close>

text \<open>
  Concrete inputs, on which the properties below are evaluated. A buffer that holds
  none of the structures, and the header of a 64-bit little-endian x86-64 shared object
  with a given number of program headers.
\<close>

definition no_data :: Elf_Data where
  "no_data =
     \<lparr> gelf_getdyn = (\<lambda>i. None), gelf_getverdef = (\<lambda>off. None),
       gelf_getverdaux = (\<lambda>off. None), gelf_getverneed = (\<lambda>off. None),
       gelf_getvernaux = (\<lambda>off. None) \<rparr>"

definition x86_64_dso_ehdr :: "16 word \<Rightarrow> GElf_Ehdr" where
  "x86_64_dso_ehdr phnum =
     \<lparr> ei_class = ELFCLASS64, ei_data = ELFDATA2LSB, e_type = ET_DYN,
       e_machine = EM_X86_64, e_phnum = phnum \<rparr>"

text \<open>
  A library \<^verbatim>\<open>libfoo.so.1\<close>. Its string table is section 1. The dynamic section holds
  \<^verbatim>\<open>DT_SONAME\<close>; the version-definition section holds the base record (one auxiliary
  entry, the soname) at offset 0 and, at offset 28, a record with the given number of
  auxiliary entries, which start at offset 48 and are 8 bytes apart: \<^verbatim>\<open>LIBFOO_1.0\<close>
  and then \<^verbatim>\<open>LIBFOO_0.9\<close>.
\<close>

definition libfoo_strptr :: "nat \<Rightarrow> nat \<Rightarrow> string option" where
  "libfoo_strptr scn off =
     (if scn = 1 \<and> off = 1 then Some ''libfoo.so.1''
      else if scn = 1 \<and> off = 13 then Some ''LIBFOO_1.0''
      else if scn = 1 \<and> off = 24 then Some ''LIBFOO_0.9''
      else None)"

definition libfoo_dynamic :: Elf_Scn where
  "libfoo_dynamic =
     \<lparr> gelf_getshdr = Some \<lparr> sh_type = SHT_DYNAMIC, sh_link = 1, sh_info = 0,
                              sh_size = 32, sh_entsize = 16 \<rparr>,
       elf_getdata =
         [no_data \<lparr> gelf_getdyn :=
            (\<lambda>i. if i = 0 then Some \<lparr> d_tag = DT_SONAME, d_val = 1 \<rparr>
                 else if i = 1 then Some \<lparr> d_tag = 0, d_val = 0 \<rparr>
                 else None) \<rparr>] \<rparr>"

definition libfoo_verdef :: "16 word \<Rightarrow> Elf_Scn" where
  "libfoo_verdef cnt =
     \<lparr> gelf_getshdr = Some \<lparr> sh_type = SHT_GNU_verdef, sh_link = 1, sh_info = 2,
                              sh_size = 64, sh_entsize = 0 \<rparr>,
       elf_getdata =
         [no_data \<lparr>
            gelf_getverdef :=
              (\<lambda>off. if off = 0 then Some \<lparr> vd_flags = VER_FLG_BASE, vd_cnt = 1, vd_aux = 20, vd_next = 28 \<rparr>
                     else if off = 28 then Some \<lparr> vd_flags = 0, vd_cnt = cnt, vd_aux = 20, vd_next = 0 \<rparr>
                     else None),
            gelf_getverdaux :=
              (\<lambda>off. if off = 20 then Some \<lparr> vda_name = 1, vda_next = 0 \<rparr>
                     else if off = 48 then Some \<lparr> vda_name = 13, vda_next = 8 \<rparr>
                     else if off = 56 then Some \<lparr> vda_name = 24, vda_next = 0 \<rparr>
                     else None) \<rparr>] \<rparr>"

definition libfoo_elf :: "Elf_Scn list \<Rightarrow> Elf" where
  "libfoo_elf scns =
     \<lparr> elf_kind = ELF_K_ELF, gelf_getehdr = Some (x86_64_dso_ehdr 0),
       gelf_getphdr = (\<lambda>i. None), elf_rawfile = None,
       elf_nextscn = scns, elf_strptr = libfoo_strptr \<rparr>"

text \<open>
  A shared object with an interpreter: one program header of type \<^verbatim>\<open>PT_INTERP\<close> that
  points at the path at the start of the mapped file, a dynamic section with
  \<^verbatim>\<open>DT_NEEDED\<close> for \<^verbatim>\<open>libc.so.6\<close> and with \<^verbatim>\<open>DT_GNU_HASH\<close> but no \<^verbatim>\<open>DT_HASH\<close>,
  and a version-requirement section asking \<^verbatim>\<open>libc.so.6\<close> for \<^verbatim>\<open>GLIBC_2.2.5\<close>.
\<close>

definition interp_strptr :: "nat \<Rightarrow> nat \<Rightarrow> string option" where
  "interp_strptr scn off =
     (if scn = 1 \<and> off = 1 then Some ''libc.so.6''
      else if scn = 1 \<and> off = 11 then Some ''GLIBC_2.2.5''
      else None)"

definition interp_dynamic :: Elf_Scn where
  "interp_dynamic =
     \<lparr> gelf_getshdr = Some \<lparr> sh_type = SHT_DYNAMIC, sh_link = 1, sh_info = 0,
                              sh_size = 48, sh_entsize = 16 \<rparr>,
       elf_getdata =
         [no_data \<lparr> gelf_getdyn :=
            (\<lambda>i. if i = 0 then Some \<lparr> d_tag = DT_NEEDED, d_val = 1 \<rparr>
                 else if i = 1 then Some \<lparr> d_tag = DT_GNU_HASH, d_val = 0x2a8 \<rparr>
                 else if i = 2 then Some \<lparr> d_tag = 0, d_val = 0 \<rparr>
                 else None) \<rparr>] \<rparr>"

definition interp_verneed :: Elf_Scn where
  "interp_verneed =
     \<lparr> gelf_getshdr = Some \<lparr> sh_type = SHT_GNU_verneed, sh_link = 1, sh_info = 1,
                              sh_size = 32, sh_entsize = 0 \<rparr>,
       elf_getdata =
         [no_data \<lparr>
            gelf_getverneed :=
              (\<lambda>off. if off = 0 then Some \<lparr> vn_cnt = 1, vn_file = 1, vn_aux = 16, vn_next = 0 \<rparr>
                     else None),
            gelf_getvernaux :=
              (\<lambda>off. if off = 16 then Some \<lparr> vna_name = 11, vna_next = 0 \<rparr> else None) \<rparr>] \<rparr>"

definition interp_elf :: Elf where
  "interp_elf =
     \<lparr> elf_kind = ELF_K_ELF, gelf_getehdr = Some (x86_64_dso_ehdr 1),
       gelf_getphdr = (\<lambda>i. if i = 0 then Some \<lparr> p_type = PT_INTERP, p_offset = 0 \<rparr> else None),
       elf_rawfile = Some (''/lib64/ld-linux-x86-64.so.2'' @ [CHR 0x00]),
       elf_nextscn = [interp_dynamic, interp_verneed], elf_strptr = interp_strptr \<rparr>"

text \<open>
  File systems with one file: whatever the path, \<^verbatim>\<open>open\<close> and \<^verbatim>\<open>fstat\<close> succeed with
  the given mode, and \<^verbatim>\<open>elf_begin\<close> returns the given handle.
\<close>

definition one_file :: "32 word \<Rightarrow> Elf option \<Rightarrow> filesystem" where
  "one_file mode e = (\<lambda>fn. Some \<lparr> fstat = Some mode, elf_begin = e \<rparr>)"

text \<open>What \<^verbatim>\<open>elf_begin\<close> returns for a file that is not an ELF object, such as a text file.\<close>

definition not_elf :: Elf where
  "not_elf =
     \<lparr> elf_kind = ELF_K_NONE, gelf_getehdr = None, gelf_getphdr = (\<lambda>i. None),
       elf_rawfile = Some ''#!/bin/sh'', elf_nextscn = [], elf_strptr = (\<lambda>scn off. None) \<rparr>"

text \<open>
  A relocatable object (\<^verbatim>\<open>e_type = ET_REL = 1\<close>), and a file system that holds it as
  \<^verbatim>\<open>/tmp/a.o\<close> beside a text file \<^verbatim>\<open>/etc/hosts\<close>; no other path opens.
\<close>

definition reloc_elf :: Elf where
  "reloc_elf =
     \<lparr> elf_kind = ELF_K_ELF,
       gelf_getehdr = Some \<lparr> ei_class = ELFCLASS64, ei_data = ELFDATA2LSB, e_type = 1,
                              e_machine = EM_X86_64, e_phnum = 0 \<rparr>,
       gelf_getphdr = (\<lambda>i. None), elf_rawfile = None,
       elf_nextscn = [], elf_strptr = (\<lambda>scn off. None) \<rparr>"

definition example_fs :: filesystem where
  "example_fs fn =
     (if fn = ''/tmp/a.o'' then Some \<lparr> fstat = Some 0x81A4, elf_begin = Some reloc_elf \<rparr>
      else if fn = ''/etc/hosts'' then Some \<lparr> fstat = Some 0x81A4, elf_begin = Some not_elf \<rparr>
      else None)"

section \<open>Properties\<close>

subsection \<open>Strings, the soname filter and the markers\<close>

lemmas EM_defs =
  EM_SPARC_def EM_386_def EM_68K_def EM_MIPS_def EM_PARISC_def EM_SPARC32PLUS_def
  EM_PPC_def EM_PPC64_def EM_S390_def EM_ARM_def EM_FAKE_ALPHA_def EM_SH_def
  EM_SPARCV9_def EM_IA_64_def EM_X86_64_def EM_AARCH64_def EM_RISCV_def EM_ALPHA_def

lemma strstr_Some_iff: "strstr h n \<noteq> None \<longleftrightarrow> (\<exists>a b. h = a @ n @ b)"
proof (induction h)
  case Nil
  then show ?case by auto
next
  case (Cons c cs)
  show ?case
  proof (cases "take (length n) (c # cs) = n")
    case True
    then have "c # cs = [] @ n @ drop (length n) (c # cs)"
      by (metis append_Nil append_take_drop_id)
    then show ?thesis using True by (metis strstr.simps(2) option.distinct(1))
  next
    case False
    have "(\<exists>a b. c # cs = a @ n @ b) \<longleftrightarrow> (\<exists>a b. cs = a @ n @ b)"
    proof
      assume "\<exists>a b. c # cs = a @ n @ b"
      then obtain a b where ab: "c # cs = a @ n @ b" by blast
      show "\<exists>a b. cs = a @ n @ b"
      proof (cases a)
        case Nil
        with ab have "take (length n) (c # cs) = n" by simp
        with False show ?thesis by simp
      next
        case (Cons x a')
        with ab have "cs = a' @ n @ b" by simp
        then show ?thesis by blast
      qed
    next
      assume "\<exists>a b. cs = a @ n @ b"
      then obtain a b where "cs = a @ n @ b" by blast
      then have "c # cs = (c # a) @ n @ b" by simp
      then show "\<exists>a b. c # cs = a @ n @ b" by blast
    qed
    with False Cons.IH show ?thesis by simp
  qed
qed

lemma sane_scan_iff: "sane_scan s \<longleftrightarrow> (\<exists>c \<in> set s. \<not> risspace c)"
  by (induction s) auto

lemma rstreqn_3_prefix: "3 \<le> length p \<Longrightarrow> rstreqn s p 3 \<longleftrightarrow> prefix (take 3 p) s"
  unfolding rstreqn_def
  by (metis append_eq_conv_conj prefix_def length_take min.absorb2)

text \<open>What the code of skipSoname decides, in terms of prefixes and substrings.\<close>

lemma skipSoname_iff:
  "skipSoname cfg s \<longleftrightarrow>
     (\<forall>c \<in> set s. risspace c) \<or>
     filter_soname cfg \<and>
       ((\<nexists>a b. s = a @ ''.so'' @ b) \<or>
        \<not> (prefix ''ld.'' s \<or> prefix ''ld-'' s \<or> prefix ''ld6'' s \<or> prefix ''lib'' s))"
proof -
  have n: "strstr s ''.so'' = None \<longleftrightarrow> (\<nexists>a b. s = a @ ''.so'' @ b)"
    using strstr_Some_iff [of s "''.so''"] by blast
  show ?thesis
    unfolding skipSoname_def sane_scan_iff n
    by (auto simp: rstreqn_3_prefix)
qed

text \<open>
  Apart from big-endian ARM and 32-bit PA-RISC, every result of \<^verbatim>\<open>mkarchmarker\<close> is
  a name between parentheses.
\<close>

lemma mkarchmarker_bracketed:
  assumes "e_machine h = EM_ARM \<Longrightarrow> ei_data h = ELFDATA2LSB"
      and "e_machine h = EM_PARISC \<Longrightarrow> ei_class h = ELFCLASS64"
  shows "\<exists>body. mkarchmarker h = Some (''('' @ body @ '')'')"
proof -
  show ?thesis using assms
    unfolding mkarchmarker_def Let_def
    by (simp add: EM_defs)
qed

subsection \<open>What the scans leave unchanged\<close>

declare processVerDef_aux.simps [simp del] processVerDef_loop.simps [simp del]
  processVerNeed_aux.simps [simp del] processVerNeed_loop.simps [simp del]
  processDynamic_loop.simps [simp del] processProgHeaders_loop.simps [simp del]
  dyn_scanned.simps [simp del]

lemma same_gate_refl: "same_gate ei ei"
  by (simp add: same_gate_def)

lemma same_gate_trans: "same_gate a b \<Longrightarrow> same_gate b c \<Longrightarrow> same_gate a c"
  by (auto simp: same_gate_def genRequires_def)

lemma same_gate_provides: "same_gate ei (ei\<lparr>provides := p\<rparr>)"
  by (simp add: same_gate_def)

lemma same_gate_requires: "genRequires ei \<Longrightarrow> same_gate ei (ei\<lparr>requires := r\<rparr>)"
  by (simp add: same_gate_def)

lemma processVerDef_aux_gate:
  "same_gate ei (snd (processVerDef_aux cfg elf shdr data def j auxoffset sn ei))"
proof (induction cfg elf shdr data "def" j auxoffset sn ei rule: processVerDef_aux.induct)
  case (1 cfg elf shdr data "def" j auxoffset sn ei)
  show ?case
    apply (subst processVerDef_aux.simps)
    using 1
    by (auto split: option.splits simp: same_gate_def genRequires_def)
qed

lemma processVerDef_loop_gate:
  "same_gate ei (snd (processVerDef_loop cfg elf shdr data i offset sn ei))"
proof (induction cfg elf shdr data i offset sn ei rule: processVerDef_loop.induct)
  case (1 cfg elf shdr data i offset sn ei)
  show ?case
  proof (cases "i - 1 \<ge> 0")
    case False
    then show ?thesis by (subst processVerDef_loop.simps) (simp add: same_gate_refl)
  next
    case True
    show ?thesis
    proof (cases "gelf_getverdef data offset")
      case None
      with True show ?thesis by (subst processVerDef_loop.simps) (simp add: same_gate_refl)
    next
      case (Some d)
      obtain sn' ei' where r: "processVerDef_aux cfg elf shdr data d (uint (vd_cnt d)) (offset + vd_aux d) sn ei = (sn', ei')"
        by (cases "processVerDef_aux cfg elf shdr data d (uint (vd_cnt d)) (offset + vd_aux d) sn ei")
      have a: "same_gate ei ei'" using processVerDef_aux_gate [of ei cfg elf shdr data d "uint (vd_cnt d)" "offset + vd_aux d" sn] r by simp
      have b: "same_gate ei' (snd (processVerDef_loop cfg elf shdr data (i - 1) (offset + vd_next d) sn' ei'))"
        using 1 [OF True Some r [symmetric]] .
      show ?thesis
        apply (subst processVerDef_loop.simps)
        using True Some r same_gate_trans [OF a b] by simp
    qed
  qed
qed

lemma processVerDef_datas_gate:
  "processVerDef_datas cfg elf shdr datas sn ei = Inr ei' \<Longrightarrow> same_gate ei ei'"
proof (induction datas arbitrary: sn ei)
  case Nil
  then show ?case by (simp add: same_gate_refl)
next
  case (Cons data rest)
  obtain sn1 ei1 where r: "processVerDef_loop cfg elf shdr data (sint (sh_info shdr)) 0 sn ei = (sn1, ei1)"
    by (cases "processVerDef_loop cfg elf shdr data (sint (sh_info shdr)) 0 sn ei")
  have a: "same_gate ei ei1" using processVerDef_loop_gate [of ei cfg elf shdr data "sint (sh_info shdr)" 0 sn] r by simp
  from Cons.prems r have "processVerDef_datas cfg elf shdr rest sn1 ei1 = Inr ei'"
    by (simp split: if_splits)
  from Cons.IH [OF this] a show ?case by (rule same_gate_trans [rotated])
qed


lemma processVerNeed_aux_gate:
  "same_gate ei (processVerNeed_aux cfg elf shdr data j auxoffset sn ei)"
proof (induction cfg elf shdr data j auxoffset sn ei rule: processVerNeed_aux.induct)
  case (1 cfg elf shdr data j auxoffset sn ei)
  show ?case
    apply (subst processVerNeed_aux.simps)
    using 1
    by (auto split: option.splits simp: same_gate_def genRequires_def)
qed

lemma processVerNeed_loop_gate:
  "same_gate ei (snd (processVerNeed_loop cfg elf shdr data i offset sn ei))"
proof (induction cfg elf shdr data i offset sn ei rule: processVerNeed_loop.induct)
  case (1 cfg elf shdr data i offset sn ei)
  show ?case
  proof (cases "i - 1 \<ge> 0")
    case False
    then show ?thesis by (subst processVerNeed_loop.simps) (simp add: same_gate_refl)
  next
    case True
    show ?thesis
    proof (cases "gelf_getverneed data offset")
      case None
      with True show ?thesis by (subst processVerNeed_loop.simps) (simp add: same_gate_refl)
    next
      case (Some need)
      show ?thesis
      proof (cases "elf_strptr elf (unat (sh_link shdr)) (unat (vn_file need))")
        case None
        with True Some show ?thesis
          by (subst processVerNeed_loop.simps) (simp add: same_gate_refl)
      next
        case s: (Some s)
        let ?ei1 = "processVerNeed_aux cfg elf shdr data (uint (vn_cnt need)) (offset + vn_aux need) (Some s) ei"
        have a: "same_gate ei ?ei1" by (rule processVerNeed_aux_gate)
        have b: "same_gate ?ei1 (snd (processVerNeed_loop cfg elf shdr data (i - 1) (offset + vn_next need) (Some s) ?ei1))"
          using 1 [OF True Some s] .
        show ?thesis
          apply (subst processVerNeed_loop.simps)
          using True Some s same_gate_trans [OF a b] by simp
      qed
    qed
  qed
qed

lemma processVerNeed_datas_gate:
  "processVerNeed_datas cfg elf shdr datas sn ei = Inr ei' \<Longrightarrow> same_gate ei ei'"
proof (induction datas arbitrary: sn ei)
  case Nil
  then show ?case by (simp add: same_gate_refl)
next
  case (Cons data rest)
  obtain sn1 ei1 where r: "processVerNeed_loop cfg elf shdr data (sint (sh_info shdr)) 0 sn ei = (sn1, ei1)"
    by (cases "processVerNeed_loop cfg elf shdr data (sint (sh_info shdr)) 0 sn ei")
  have a: "same_gate ei ei1" using processVerNeed_loop_gate [of ei cfg elf shdr data "sint (sh_info shdr)" 0 sn] r by simp
  from Cons.prems r have "processVerNeed_datas cfg elf shdr rest sn1 ei1 = Inr ei'"
    by (simp split: if_splits)
  from Cons.IH [OF this] a show ?case by (rule same_gate_trans [rotated])
qed

lemma processDynamic_switch_gate: "same_gate ei (processDynamic_switch cfg elf shdr dyn ei)"
  by (simp add: processDynamic_switch_def same_gate_def genRequires_def split: option.splits)

lemma processDynamic_loop_gate:
  "processDynamic_loop cfg elf shdr data n i ei = Inr ei' \<Longrightarrow> same_gate ei ei'"
proof (induction cfg elf shdr data n i ei rule: processDynamic_loop.induct)
  case (1 cfg elf shdr data n i ei)
  show ?case
  proof (cases "i < n")
    case False
    with "1.prems" show ?thesis
      by (subst (asm) processDynamic_loop.simps) (simp add: same_gate_refl)
  next
    case True
    show ?thesis
    proof (cases "gelf_getdyn data i")
      case None
      with True "1.prems" show ?thesis
        by (subst (asm) processDynamic_loop.simps) (simp add: same_gate_refl)
    next
      case (Some dyn)
      from "1.prems" True Some have ne: "i \<noteq> 2 ^ 31 - 1"
        and rec: "processDynamic_loop cfg elf shdr data n (i + 1) (processDynamic_switch cfg elf shdr dyn ei) = Inr ei'"
        by (subst (asm) processDynamic_loop.simps, simp split: if_splits)+
      from "1.IH" [OF True Some ne rec] processDynamic_switch_gate
      show ?thesis by (rule same_gate_trans [rotated])
    qed
  qed
qed

lemma processDynamic_datas_gate:
  "processDynamic_datas cfg elf shdr datas ei = Inr ei' \<Longrightarrow> same_gate ei ei'"
proof (induction datas arbitrary: ei)
  case Nil
  then show ?case by (simp add: same_gate_refl)
next
  case (Cons data rest)
  from Cons.prems obtain ei1 where
    a: "processDynamic_loop cfg elf shdr data (unat (sh_size shdr div sh_entsize shdr)) 0 ei = Inr ei1"
    and b: "processDynamic_datas cfg elf shdr rest ei1 = Inr ei'"
    by (auto split: if_splits sum.splits)
  from processDynamic_loop_gate [OF a] Cons.IH [OF b] show ?case by (rule same_gate_trans)
qed

lemma processSections_loop_gate:
  "processSections_loop cfg elf scns ei = Inr ei' \<Longrightarrow> same_gate ei ei'"
proof (induction scns arbitrary: ei)
  case Nil
  then show ?case by (simp add: same_gate_refl)
next
  case (Cons scn rest)
  show ?case
  proof (cases "gelf_getshdr scn")
    case None
    with Cons.prems show ?thesis by (simp add: same_gate_refl)
  next
    case (Some shdr)
    with Cons.prems obtain ei1 where
      a: "(if sh_type shdr = SHT_GNU_verdef then processVerDef cfg elf scn shdr ei
           else if sh_type shdr = SHT_GNU_verneed then processVerNeed cfg elf scn shdr ei
           else if sh_type shdr = SHT_DYNAMIC then processDynamic cfg elf scn shdr ei
           else Inr ei) = Inr ei1"
      and b: "processSections_loop cfg elf rest ei1 = Inr ei'"
      by (auto split: sum.splits)
    from a have "same_gate ei ei1"
      by (auto split: if_splits simp: same_gate_refl processVerDef_def processVerNeed_def
            processDynamic_def
          dest: processVerDef_datas_gate processVerNeed_datas_gate processDynamic_datas_gate)
    from this Cons.IH [OF b] show ?thesis by (rule same_gate_trans)
  qed
qed

lemma processProgHeaders_loop_frame:
  "processProgHeaders_loop elf ehdr i ei = Inr ei' \<Longrightarrow>
     isExec ei' = isExec ei \<and> requires ei' = requires ei \<and> provides ei' = provides ei \<and>
     isDSO ei' = isDSO ei \<and> marker ei' = marker ei \<and> archmarker ei' = archmarker ei \<and>
     gotHASH ei' = gotHASH ei \<and> gotGNUHASH ei' = gotGNUHASH ei"
proof (induction elf ehdr i ei rule: processProgHeaders_loop.induct)
  case (1 elf ehdr i ei)
  from "1.prems" show ?case
    apply (subst (asm) processProgHeaders_loop.simps)
    using "1.IH"
    by (auto split: if_splits option.splits)
qed

subsection \<open>The hash flags and the dynamic table\<close>

lemma same_hash_refl: "same_hash ei ei"
  by (simp add: same_hash_def)

lemma same_hash_trans: "same_hash a b \<Longrightarrow> same_hash b c \<Longrightarrow> same_hash a c"
  by (simp add: same_hash_def)

lemma processVerDef_aux_hash:
  "same_hash ei (snd (processVerDef_aux cfg elf shdr data def j auxoffset sn ei))"
proof (induction cfg elf shdr data "def" j auxoffset sn ei rule: processVerDef_aux.induct)
  case (1 cfg elf shdr data "def" j auxoffset sn ei)
  show ?case
    apply (subst processVerDef_aux.simps)
    using 1
    by (auto split: option.splits simp: same_hash_def)
qed

lemma processVerDef_loop_hash:
  "same_hash ei (snd (processVerDef_loop cfg elf shdr data i offset sn ei))"
proof (induction cfg elf shdr data i offset sn ei rule: processVerDef_loop.induct)
  case (1 cfg elf shdr data i offset sn ei)
  show ?case
  proof (cases "i - 1 \<ge> 0")
    case False
    then show ?thesis by (subst processVerDef_loop.simps) (simp add: same_hash_refl)
  next
    case True
    show ?thesis
    proof (cases "gelf_getverdef data offset")
      case None
      with True show ?thesis by (subst processVerDef_loop.simps) (simp add: same_hash_refl)
    next
      case (Some d)
      obtain sn' ei' where r: "processVerDef_aux cfg elf shdr data d (uint (vd_cnt d)) (offset + vd_aux d) sn ei = (sn', ei')"
        by (cases "processVerDef_aux cfg elf shdr data d (uint (vd_cnt d)) (offset + vd_aux d) sn ei")
      have a: "same_hash ei ei'" using processVerDef_aux_hash [of ei cfg elf shdr data d "uint (vd_cnt d)" "offset + vd_aux d" sn] r by simp
      have b: "same_hash ei' (snd (processVerDef_loop cfg elf shdr data (i - 1) (offset + vd_next d) sn' ei'))"
        using 1 [OF True Some r [symmetric]] .
      show ?thesis
        apply (subst processVerDef_loop.simps)
        using True Some r same_hash_trans [OF a b] by simp
    qed
  qed
qed

lemma processVerDef_datas_hash:
  "processVerDef_datas cfg elf shdr datas sn ei = Inr ei' \<Longrightarrow> same_hash ei ei'"
proof (induction datas arbitrary: sn ei)
  case Nil
  then show ?case by (simp add: same_hash_refl)
next
  case (Cons data rest)
  obtain sn1 ei1 where r: "processVerDef_loop cfg elf shdr data (sint (sh_info shdr)) 0 sn ei = (sn1, ei1)"
    by (cases "processVerDef_loop cfg elf shdr data (sint (sh_info shdr)) 0 sn ei")
  have a: "same_hash ei ei1" using processVerDef_loop_hash [of ei cfg elf shdr data "sint (sh_info shdr)" 0 sn] r by simp
  from Cons.prems r have "processVerDef_datas cfg elf shdr rest sn1 ei1 = Inr ei'"
    by (simp split: if_splits)
  from Cons.IH [OF this] a show ?case by (rule same_hash_trans [rotated])
qed


lemma processVerNeed_aux_hash:
  "same_hash ei (processVerNeed_aux cfg elf shdr data j auxoffset sn ei)"
proof (induction cfg elf shdr data j auxoffset sn ei rule: processVerNeed_aux.induct)
  case (1 cfg elf shdr data j auxoffset sn ei)
  show ?case
    apply (subst processVerNeed_aux.simps)
    using 1
    by (auto split: option.splits simp: same_hash_def)
qed

lemma processVerNeed_loop_hash:
  "same_hash ei (snd (processVerNeed_loop cfg elf shdr data i offset sn ei))"
proof (induction cfg elf shdr data i offset sn ei rule: processVerNeed_loop.induct)
  case (1 cfg elf shdr data i offset sn ei)
  show ?case
  proof (cases "i - 1 \<ge> 0")
    case False
    then show ?thesis by (subst processVerNeed_loop.simps) (simp add: same_hash_refl)
  next
    case True
    show ?thesis
    proof (cases "gelf_getverneed data offset")
      case None
      with True show ?thesis by (subst processVerNeed_loop.simps) (simp add: same_hash_refl)
    next
      case (Some need)
      show ?thesis
      proof (cases "elf_strptr elf (unat (sh_link shdr)) (unat (vn_file need))")
        case None
        with True Some show ?thesis
          by (subst processVerNeed_loop.simps) (simp add: same_hash_refl)
      next
        case s: (Some s)
        let ?ei1 = "processVerNeed_aux cfg elf shdr data (uint (vn_cnt need)) (offset + vn_aux need) (Some s) ei"
        have a: "same_hash ei ?ei1" by (rule processVerNeed_aux_hash)
        have b: "same_hash ?ei1 (snd (processVerNeed_loop cfg elf shdr data (i - 1) (offset + vn_next need) (Some s) ?ei1))"
          using 1 [OF True Some s] .
        show ?thesis
          apply (subst processVerNeed_loop.simps)
          using True Some s same_hash_trans [OF a b] by simp
      qed
    qed
  qed
qed

lemma processVerNeed_datas_hash:
  "processVerNeed_datas cfg elf shdr datas sn ei = Inr ei' \<Longrightarrow> same_hash ei ei'"
proof (induction datas arbitrary: sn ei)
  case Nil
  then show ?case by (simp add: same_hash_refl)
next
  case (Cons data rest)
  obtain sn1 ei1 where r: "processVerNeed_loop cfg elf shdr data (sint (sh_info shdr)) 0 sn ei = (sn1, ei1)"
    by (cases "processVerNeed_loop cfg elf shdr data (sint (sh_info shdr)) 0 sn ei")
  have a: "same_hash ei ei1" using processVerNeed_loop_hash [of ei cfg elf shdr data "sint (sh_info shdr)" 0 sn] r by simp
  from Cons.prems r have "processVerNeed_datas cfg elf shdr rest sn1 ei1 = Inr ei'"
    by (simp split: if_splits)
  from Cons.IH [OF this] a show ?case by (rule same_hash_trans [rotated])
qed



lemma hash_flags_Nil: "hash_flags ei [] ei"
  by (simp add: hash_flags_def)

lemma hash_flags_same: "same_hash ei ei' \<Longrightarrow> hash_flags ei [] ei'"
  by (simp add: hash_flags_def same_hash_def)

lemma hash_flags_append:
  "hash_flags a xs b \<Longrightarrow> hash_flags b ys c \<Longrightarrow> hash_flags a (xs @ ys) c"
  by (auto simp: hash_flags_def)

lemma processDynamic_switch_hash_flags:
  "hash_flags ei [dyn] (processDynamic_switch cfg elf shdr dyn ei)"
  by (auto simp: hash_flags_def processDynamic_switch_def DT_HASH_def DT_GNU_HASH_def
        DT_DEBUG_def DT_SONAME_def DT_NEEDED_def split: option.splits)

lemma processDynamic_loop_hash_flags:
  "processDynamic_loop cfg elf shdr data n i ei = Inr ei' \<Longrightarrow>
     hash_flags ei (dyn_scanned data n i) ei'"
proof (induction cfg elf shdr data n i ei rule: processDynamic_loop.induct)
  case (1 cfg elf shdr data n i ei)
  show ?case
  proof (cases "i < n")
    case False
    with "1.prems" show ?thesis
      by (subst (asm) processDynamic_loop.simps, subst dyn_scanned.simps)
         (simp add: hash_flags_Nil)
  next
    case True
    show ?thesis
    proof (cases "gelf_getdyn data i")
      case None
      with True "1.prems" show ?thesis
        by (subst (asm) processDynamic_loop.simps, subst dyn_scanned.simps)
           (simp add: hash_flags_Nil)
    next
      case (Some dyn)
      from "1.prems" True Some have ne: "i \<noteq> 2 ^ 31 - 1"
        and rec: "processDynamic_loop cfg elf shdr data n (i + 1) (processDynamic_switch cfg elf shdr dyn ei) = Inr ei'"
        by (subst (asm) processDynamic_loop.simps, simp split: if_splits)+
      have d: "dyn_scanned data n i = [dyn] @ dyn_scanned data n (i + 1)"
        using True Some by (subst dyn_scanned.simps) simp
      from hash_flags_append [OF processDynamic_switch_hash_flags "1.IH" [OF True Some ne rec]]
      show ?thesis unfolding d .
    qed
  qed
qed

lemma processDynamic_datas_hash_flags:
  "processDynamic_datas cfg elf shdr datas ei = Inr ei' \<Longrightarrow>
     hash_flags ei
       (concat (map (\<lambda>data. dyn_scanned data (unat (sh_size shdr div sh_entsize shdr)) 0) datas))
       ei'"
proof (induction datas arbitrary: ei)
  case Nil
  then show ?case by (simp add: hash_flags_Nil)
next
  case (Cons data rest)
  from Cons.prems obtain ei1 where
    a: "processDynamic_loop cfg elf shdr data (unat (sh_size shdr div sh_entsize shdr)) 0 ei = Inr ei1"
    and b: "processDynamic_datas cfg elf shdr rest ei1 = Inr ei'"
    by (auto split: if_splits sum.splits)
  from hash_flags_append [OF processDynamic_loop_hash_flags [OF a] Cons.IH [OF b]]
  show ?case by simp
qed

lemma processSections_loop_hash_flags:
  "processSections_loop cfg elf scns ei = Inr ei' \<Longrightarrow> hash_flags ei (scns_dyns scns) ei'"
proof (induction scns arbitrary: ei)
  case Nil
  then show ?case by (simp add: hash_flags_Nil)
next
  case (Cons scn rest)
  show ?case
  proof (cases "gelf_getshdr scn")
    case None
    with Cons.prems show ?thesis by (simp add: hash_flags_Nil)
  next
    case (Some shdr)
    let ?ds = "if sh_type shdr = SHT_DYNAMIC
           then concat (map (\<lambda>data. dyn_scanned data (unat (sh_size shdr div sh_entsize shdr)) 0)
                          (elf_getdata scn))
           else []"
    from Some Cons.prems obtain ei1 where
      a: "(if sh_type shdr = SHT_GNU_verdef then processVerDef cfg elf scn shdr ei
           else if sh_type shdr = SHT_GNU_verneed then processVerNeed cfg elf scn shdr ei
           else if sh_type shdr = SHT_DYNAMIC then processDynamic cfg elf scn shdr ei
           else Inr ei) = Inr ei1"
      and b: "processSections_loop cfg elf rest ei1 = Inr ei'"
      by (auto split: sum.splits)
    have "hash_flags ei ?ds ei1"
    proof (cases "sh_type shdr = SHT_GNU_verdef")
      case True
      with a have "same_hash ei ei1"
        by (auto simp: processVerDef_def dest: processVerDef_datas_hash)
      with True show ?thesis
        by (simp add: hash_flags_same SHT_GNU_verdef_def SHT_DYNAMIC_def)
    next
      case nd: False
      show ?thesis
      proof (cases "sh_type shdr = SHT_GNU_verneed")
        case True
        with a nd have "same_hash ei ei1"
          by (auto simp: processVerNeed_def dest: processVerNeed_datas_hash)
        with True show ?thesis
          by (simp add: hash_flags_same SHT_GNU_verneed_def SHT_DYNAMIC_def)
      next
        case nn: False
        show ?thesis
        proof (cases "sh_type shdr = SHT_DYNAMIC")
          case True
          with a nd nn show ?thesis
            by (auto simp: processDynamic_def dest: processDynamic_datas_hash_flags)
        next
          case False
          with a nd nn show ?thesis by (simp add: hash_flags_Nil)
        qed
      qed
    qed
    from hash_flags_append [OF this Cons.IH [OF b]] Some
    show ?thesis by simp
  qed
qed

lemma processFile_scan_hash_flags:
  assumes "processFile_scan cfg elf st_mode ehdr = Inr ei"
    and "e_type ehdr = ET_DYN \<or> e_type ehdr = ET_EXEC"
  shows "gotGNUHASH ei \<longleftrightarrow> DT_GNU_HASH \<in> d_tag ` set (dynamic_table elf)"
    and "gotHASH ei \<longleftrightarrow> DT_HASH \<in> d_tag ` set (dynamic_table elf)"
proof -
  let ?ei0 = "elfInfo_zero\<lparr> marker := mkmarker ehdr, archmarker := mkarchmarker ehdr,
                 isDSO := (e_type ehdr = ET_DYN),
                 isExec := st_mode AND (S_IXUSR OR S_IXGRP OR S_IXOTH) \<rparr>"
  from assms obtain ei1 where
    p: "processProgHeaders_loop elf ehdr 0 ?ei0 = Inr ei1"
    and s: "processSections_loop cfg elf (elf_nextscn elf) ei1 = Inr ei"
    by (auto simp: processFile_scan_def processProgHeaders_def processSections_def
          split: sum.splits)
  from processProgHeaders_loop_frame [OF p]
  have f: "\<not> gotHASH ei1" "\<not> gotGNUHASH ei1"
    by (simp_all add: elfInfo_zero_def)
  from processSections_loop_hash_flags [OF s]
  have g: "hash_flags ei1 (dynamic_table elf) ei" by (simp add: dynamic_table_def)
  show "gotGNUHASH ei \<longleftrightarrow> DT_GNU_HASH \<in> d_tag ` set (dynamic_table elf)"
    using f g by (simp add: hash_flags_def)
  show "gotHASH ei \<longleftrightarrow> DT_HASH \<in> d_tag ` set (dynamic_table elf)"
    using f g by (simp add: hash_flags_def)
qed

subsection \<open>The scan completes on such inputs\<close>

lemma rstrdup_at_terminated:
  "last filedata = CHR 0x00 \<Longrightarrow> off < length filedata \<Longrightarrow> rstrdup_at filedata off = None \<Longrightarrow> False"
proof -
  assume a: "last filedata = CHR 0x00" and b: "off < length filedata"
  then have "drop off filedata \<noteq> []" by simp
  moreover have "last (drop off filedata) = CHR 0x00" using a b by simp
  ultimately have "CHR 0x00 \<in> set (drop off filedata)" by (metis last_in_set)
  then show "rstrdup_at filedata off = None \<Longrightarrow> False" by (simp add: rstrdup_at_def)
qed

lemma processProgHeaders_loop_completes:
  "interp_safe elf \<Longrightarrow> \<exists>ei'. processProgHeaders_loop elf ehdr i ei = Inr ei'"
proof (induction elf ehdr i ei rule: processProgHeaders_loop.induct)
  case (1 elf ehdr i ei)
  show ?case
    apply (subst processProgHeaders_loop.simps)
    using 1
    by (auto split: option.splits simp: interp_safe_def dest: rstrdup_at_terminated)
qed

lemma sint_not_min:
  "(w :: 32 word) \<noteq> 0x80000000 \<Longrightarrow> sint w \<noteq> - (2 ^ 31)"
proof
  assume a: "w \<noteq> 0x80000000" and b: "sint w = - (2 ^ 31)"
  have "sint (0x80000000 :: 32 word) = - (2 ^ 31)" by simp
  with b have "sint w = sint (0x80000000 :: 32 word)" by simp
  then have "w = 0x80000000" by (rule signed_word_eqI)
  with a show False by simp
qed

lemma processVerDef_datas_completes:
  "sh_info shdr \<noteq> 0x80000000 \<Longrightarrow> \<exists>ei'. processVerDef_datas cfg elf shdr datas sn ei = Inr ei'"
proof (induction datas arbitrary: sn ei)
  case Nil
  then show ?case by simp
next
  case (Cons data rest)
  from sint_not_min [OF Cons.prems] Cons.IH [OF Cons.prems]
  show ?case by (simp split: prod.splits)
qed

lemma processVerNeed_datas_completes:
  "sh_info shdr \<noteq> 0x80000000 \<Longrightarrow> \<exists>ei'. processVerNeed_datas cfg elf shdr datas sn ei = Inr ei'"
proof (induction datas arbitrary: sn ei)
  case Nil
  then show ?case by simp
next
  case (Cons data rest)
  from sint_not_min [OF Cons.prems] Cons.IH [OF Cons.prems]
  show ?case by (simp split: prod.splits)
qed

lemma processDynamic_loop_completes:
  "n < 2 ^ 31 \<Longrightarrow> \<exists>ei'. processDynamic_loop cfg elf shdr data n i ei = Inr ei'"
proof (induction cfg elf shdr data n i ei rule: processDynamic_loop.induct)
  case (1 cfg elf shdr data n i ei)
  show ?case
    apply (subst processDynamic_loop.simps)
    using 1
    by (auto split: option.splits)
qed

lemma processDynamic_datas_completes:
  "sh_entsize shdr \<noteq> 0 \<Longrightarrow> unat (sh_size shdr div sh_entsize shdr) < 2 ^ 31 \<Longrightarrow>
     \<exists>ei'. processDynamic_datas cfg elf shdr datas ei = Inr ei'"
proof (induction datas arbitrary: ei)
  case Nil
  then show ?case by simp
next
  case (Cons data rest)
  from processDynamic_loop_completes [OF Cons.prems(2)]
  obtain ei1 where "processDynamic_loop cfg elf shdr data (unat (sh_size shdr div sh_entsize shdr)) 0 ei = Inr ei1"
    by blast
  with Cons.IH [OF Cons.prems] Cons.prems(1) show ?case by simp
qed

lemma processSections_loop_completes:
  "\<forall>scn \<in> set scns. scn_safe scn \<Longrightarrow> \<exists>ei'. processSections_loop cfg elf scns ei = Inr ei'"
proof (induction scns arbitrary: ei)
  case Nil
  then show ?case by simp
next
  case (Cons scn rest)
  show ?case
  proof (cases "gelf_getshdr scn")
    case None
    then show ?thesis by simp
  next
    case (Some shdr)
    from Cons.prems Some have safe:
      "elf_getdata scn = [] \<or>
          (if sh_type shdr = SHT_GNU_verdef \<or> sh_type shdr = SHT_GNU_verneed
           then sh_info shdr \<noteq> 0x80000000
           else if sh_type shdr = SHT_DYNAMIC
           then sh_entsize shdr \<noteq> 0 \<and> unat (sh_size shdr div sh_entsize shdr) < 2 ^ 31
           else True)"
      by (simp add: scn_safe_def)
    have "\<exists>ei1. (if sh_type shdr = SHT_GNU_verdef then processVerDef cfg elf scn shdr ei
           else if sh_type shdr = SHT_GNU_verneed then processVerNeed cfg elf scn shdr ei
           else if sh_type shdr = SHT_DYNAMIC then processDynamic cfg elf scn shdr ei
           else Inr ei) = Inr ei1"
    proof (cases "elf_getdata scn = []")
      case True
      then show ?thesis
        by (simp add: processVerDef_def processVerNeed_def processDynamic_def)
    next
      case False
      with safe show ?thesis
        using processVerDef_datas_completes processVerNeed_datas_completes
          processDynamic_datas_completes
        by (auto simp: processVerDef_def processVerNeed_def processDynamic_def
              split: if_splits)
    qed
    then obtain ei1 where "(if sh_type shdr = SHT_GNU_verdef then processVerDef cfg elf scn shdr ei
           else if sh_type shdr = SHT_GNU_verneed then processVerNeed cfg elf scn shdr ei
           else if sh_type shdr = SHT_DYNAMIC then processDynamic cfg elf scn shdr ei
           else Inr ei) = Inr ei1" by blast
    moreover from Cons.IH [of ei1] Cons.prems
    obtain ei' where "processSections_loop cfg elf rest ei1 = Inr ei'" by auto
    ultimately show ?thesis using Some by simp
  qed
qed

lemma processFile_completes:
  assumes "\<And>fd elf. fs fn = Some fd \<Longrightarrow> elf_begin fd = Some elf \<Longrightarrow>
             interp_safe elf \<and> (\<forall>scn \<in> set (elf_nextscn elf). scn_safe scn)"
  shows "\<exists>rc out. processFile cfg fs fn dtype = Inr (rc, out)"
proof -
  have scan: "\<exists>ei. processFile_scan cfg elf st_mode ehdr = Inr ei"
    if "interp_safe elf" and "\<forall>scn \<in> set (elf_nextscn elf). scn_safe scn"
    for elf st_mode ehdr
  proof (cases "e_type ehdr = ET_DYN \<or> e_type ehdr = ET_EXEC")
    case False
    then show ?thesis by (simp add: processFile_scan_def)
  next
    case True
    let ?ei0 = "elfInfo_zero\<lparr> marker := mkmarker ehdr, archmarker := mkarchmarker ehdr,
                 isDSO := (e_type ehdr = ET_DYN),
                 isExec := st_mode AND (S_IXUSR OR S_IXGRP OR S_IXOTH) \<rparr>"
    from processProgHeaders_loop_completes [OF that(1)]
    obtain ei1 where p: "processProgHeaders_loop elf ehdr 0 ?ei0 = Inr ei1" by blast
    from processSections_loop_completes [OF that(2)]
    obtain ei2 where "processSections_loop cfg elf (elf_nextscn elf) ei1 = Inr ei2" by blast
    with p True show ?thesis
      by (simp add: processFile_scan_def processProgHeaders_def processSections_def)
  qed
  show ?thesis
  proof (cases "fs fn")
    case None
    then show ?thesis by (simp add: processFile_def)
  next
    case (Some fd)
    show ?thesis
    proof (cases "elf_begin fd")
      case None
      with Some show ?thesis by (simp add: processFile_def split: option.splits)
    next
      case e: (Some elf)
      from assms [OF Some e] scan
      have "\<And>st_mode ehdr. \<exists>ei. processFile_scan cfg elf st_mode ehdr = Inr ei" by blast
      then have "\<And>st_mode ehdr t. processFile_scan cfg elf st_mode ehdr \<noteq> Inl t"
        by (metis sum.distinct(1))
      then show ?thesis using Some e
        by (auto simp: processFile_def Let_def split: option.splits sum.splits)
    qed
  qed
qed

subsection \<open>The soname filter and the decoration of one entry\<close>

text \<open>
  Claim C6. \<^verbatim>\<open>skipSoname\<close> is claimed to reject, under strict filtering, every name
  that starts neither with \<^verbatim>\<open>lib\<close> nor with one of \<^verbatim>\<open>ld.\<close>, \<^verbatim>\<open>ld-\<close>, \<^verbatim>\<open>ld64.\<close>,
  \<^verbatim>\<open>ld64-\<close>. The code compares only the first three characters of \<^verbatim>\<open>ld64.\<close> and
  \<^verbatim>\<open>ld64-\<close>: the name \<^verbatim>\<open>ld6.so\<close> has none of the five prefixes, is not blank,
  contains \<^verbatim>\<open>.so\<close>, and is accepted with the default (strict) configuration.
\<close>

theorem skipSoname_accepts_ld6:
  "filter_soname default_config \<and>
   skipSoname default_config ''ld6.so'' = False \<and>
   \<not> prefix ''lib'' ''ld6.so'' \<and> \<not> prefix ''ld.'' ''ld6.so'' \<and> \<not> prefix ''ld-'' ''ld6.so'' \<and>
   \<not> prefix ''ld64.'' ''ld6.so'' \<and> \<not> prefix ''ld64-'' ''ld6.so''"
  by (simp add: skipSoname_def default_config_def risspace_def rstreqn_def)

text \<open>
  Claim C7. For a name that passes the soname filter, \<^verbatim>\<open>addDep\<close> appends exactly one
  string: the bare name when version and marker are both absent, and otherwise the
  name, the version between parentheses and then the marker, where an absent version
  or marker contributes the empty string.
\<close>

theorem addDep_format:
  "\<not> skipSoname cfg name \<Longrightarrow>
     addDep cfg deps name None None = deps @ [name] \<and>
     addDep cfg deps name (Some v) None = deps @ [name @ ''('' @ v @ '')''] \<and>
     addDep cfg deps name None (Some m) = deps @ [name @ ''()'' @ m] \<and>
     addDep cfg deps name (Some v) (Some m) = deps @ [name @ ''('' @ v @ '')'' @ m]"
  by (simp add: addDep_def)

theorem addDep_format_witness:
  "\<not> skipSoname default_config ''libc.so.6'' \<and>
   addDep default_config [] ''libc.so.6'' None None = [''libc.so.6''] \<and>
   addDep default_config [] ''libc.so.6'' (Some ''GLIBC_2.4'') None = [''libc.so.6(GLIBC_2.4)''] \<and>
   addDep default_config [] ''libc.so.6'' None (Some ''(64bit)'') = [''libc.so.6()(64bit)''] \<and>
   addDep default_config [] ''libc.so.6'' (Some ''GLIBC_2.4'') (Some ''(64bit)'') =
     [''libc.so.6(GLIBC_2.4)(64bit)'']"
proof -
  have h: "\<not> skipSoname default_config ''libc.so.6''"
    by (simp add: skipSoname_def default_config_def risspace_def rstreqn_def)
  show ?thesis
    using h addDep_format [OF h, of "[]" "''GLIBC_2.4''" "''(64bit)''"] by simp
qed

text \<open>
  Claim C8. The architecture marker is claimed to be a name between parentheses for
  every header. For a big-endian ARM header the code returns \<^verbatim>\<open>armeb\<close>, and for a
  32-bit PA-RISC header \<^verbatim>\<open>hppa\<close>, both without parentheses, while every other case
  of the same \<^verbatim>\<open>switch\<close> has them.
\<close>

theorem mkarchmarker_unbracketed:
  "mkarchmarker \<lparr> ei_class = ELFCLASS32, ei_data = ELFDATA2MSB, e_type = ET_DYN,
                  e_machine = EM_ARM, e_phnum = 0 \<rparr> = Some ''armeb'' \<and>
   mkarchmarker \<lparr> ei_class = ELFCLASS32, ei_data = ELFDATA2MSB, e_type = ET_DYN,
                  e_machine = EM_PARISC, e_phnum = 0 \<rparr> = Some ''hppa''"
  by (simp add: mkarchmarker_def EM_defs ELFDATA2MSB_def ELFDATA2LSB_def ELFCLASS32_def
        ELFCLASS64_def)

subsection \<open>Evaluation on concrete objects, and the steps of processFile\<close>

lemmas const_defs =
  ELFCLASS64_def ELFDATA2LSB_def ELFDATA2MSB_def ELFCLASS32_def ET_EXEC_def ET_DYN_def
  PT_INTERP_def SHT_DYNAMIC_def SHT_GNU_verdef_def SHT_GNU_verneed_def DT_NEEDED_def
  DT_HASH_def DT_SONAME_def DT_DEBUG_def DT_GNU_HASH_def VER_FLG_BASE_def
  S_IXUSR_def S_IXGRP_def S_IXOTH_def EXIT_FAILURE_def

lemmas run_defs =
  processFile_def processFile_scan_def processFile_gnuhash_def processFile_soname_def
  processFile_interp_def processProgHeaders_def processProgHeaders_loop.simps
  processSections_def processDynamic_def processDynamic_loop.simps
  processDynamic_switch_def processVerDef_def processVerDef_loop.simps
  processVerDef_aux.simps processVerNeed_def processVerNeed_loop.simps
  processVerNeed_aux.simps genRequires_def addDeps_def addDep_def skipSoname_def
  risspace_def rstreqn_def rstrdup_at_def mkmarker_def mkarchmarker_def elfInfo_zero_def
  const_defs EM_defs

lemmas object_defs =
  one_file_def libfoo_elf_def libfoo_dynamic_def libfoo_verdef_def libfoo_strptr_def
  interp_elf_def interp_dynamic_def interp_verneed_def interp_strptr_def not_elf_def
  no_data_def x86_64_dso_ehdr_def default_config_def

text \<open>How \<^verbatim>\<open>processFile\<close> decomposes once its guards have passed.\<close>

lemma processFile_after_scan:
  assumes "fs fn = Some fd" and "fstat fd = Some st_mode" and "elf_begin fd = Some elf"
    and "elf_kind elf = ELF_K_ELF" and "gelf_getehdr elf = Some ehdr"
    and "processFile_scan cfg elf st_mode ehdr = Inr ei"
  shows "processFile cfg fs fn dtype =
           Inr (0, if dtype then requires (processFile_interp cfg (processFile_gnuhash cfg ei))
                   else provides (processFile_soname cfg fn (processFile_gnuhash cfg ei)))"
proof -
  have a: "\<And>e. requires (processFile_interp cfg (processFile_soname cfg fn e)) =
                requires (processFile_interp cfg e)"
    by (simp add: processFile_interp_def processFile_soname_def Let_def split: option.splits)
  have b: "\<And>e. provides (processFile_interp cfg e) = provides e"
    by (simp add: processFile_interp_def split: option.splits)
  show ?thesis
    using assms by (simp add: processFile_def Let_def a b)
qed

lemma processFile_scan_zero:
  "e_type ehdr \<noteq> ET_DYN \<Longrightarrow> e_type ehdr \<noteq> ET_EXEC \<Longrightarrow>
     processFile_scan cfg elf st_mode ehdr = Inr elfInfo_zero"
  by (simp add: processFile_scan_def)

lemma processFile_scan_gate:
  assumes "processFile_scan cfg elf st_mode ehdr = Inr ei"
    and "e_type ehdr = ET_DYN \<or> e_type ehdr = ET_EXEC"
  shows "isExec ei = st_mode AND (S_IXUSR OR S_IXGRP OR S_IXOTH)"
    and "\<not> genRequires ei \<Longrightarrow> requires ei = []"
proof -
  let ?ei0 = "elfInfo_zero\<lparr> marker := mkmarker ehdr, archmarker := mkarchmarker ehdr,
                 isDSO := (e_type ehdr = ET_DYN),
                 isExec := st_mode AND (S_IXUSR OR S_IXGRP OR S_IXOTH) \<rparr>"
  from assms obtain ei1 where
    p: "processProgHeaders_loop elf ehdr 0 ?ei0 = Inr ei1"
    and s: "processSections_loop cfg elf (elf_nextscn elf) ei1 = Inr ei"
    by (auto simp: processFile_scan_def processProgHeaders_def processSections_def
          split: sum.splits)
  from processProgHeaders_loop_frame [OF p]
  have f: "isExec ei1 = st_mode AND (S_IXUSR OR S_IXGRP OR S_IXOTH)" "requires ei1 = []"
    by (simp_all add: elfInfo_zero_def)
  from processSections_loop_gate [OF s]
  have g: "same_gate ei1 ei" .
  show "isExec ei = st_mode AND (S_IXUSR OR S_IXGRP OR S_IXOTH)"
    using f g by (simp add: same_gate_def)
  show "requires ei = []" if "\<not> genRequires ei"
    using f g that by (auto simp: same_gate_def genRequires_def)
qed

lemma processFile_rc:
  assumes "processFile cfg fs fn dtype = Inr (r, lines)"
  shows "(r = 0 \<longleftrightarrow> passes_guards fs fn) \<and> (r = 0 \<or> r = 1) \<and> (r = 1 \<longrightarrow> lines = [])"
  using assms
  by (auto simp: processFile_def passes_guards_def Let_def
        split: option.splits if_splits sum.splits)

lemma main_loop_rc:
  "main_loop cfg fs dtype paths rc0 out0 = Inr (rc, out) \<Longrightarrow>
     rc = (if \<forall>fn \<in> set paths. passes_guards fs fn then rc0 else EXIT_FAILURE)"
proof (induction paths arbitrary: rc0 out0)
  case Nil
  then show ?case by simp
next
  case (Cons fn fns)
  from Cons.prems obtain r lines where
    pf: "processFile cfg fs fn dtype = Inr (r, lines)"
    and rest: "main_loop cfg fs dtype fns (if r \<noteq> 0 then EXIT_FAILURE else rc0) (out0 @ lines) = Inr (rc, out)"
    by (auto split: sum.splits prod.splits)
  from processFile_rc [OF pf] have r: "r = 0 \<longleftrightarrow> passes_guards fs fn" by simp
  from Cons.IH [OF rest] r show ?case by auto
qed

subsection \<open>Version definitions and the soname provide\<close>

text \<open>
  Claim C1, as stated, fails. For the library \<^verbatim>\<open>libfoo.so.1\<close> with the base record
  and one further record named \<^verbatim>\<open>LIBFOO_1.0\<close>, on x86-64 with the default flags, the
  claimed output is \<^verbatim>\<open>libfoo.so.1(64bit)\<close> and then
  \<^verbatim>\<open>libfoo.so.1(LIBFOO_1.0)(64bit)\<close>. The program prints something else: the entry
  for the soname has an empty pair of parentheses for the absent version, and it comes
  last, because the sections are scanned before the soname is provided.
\<close>

theorem libfoo_claimed_output_wrong:
  "processFile default_config
     (one_file 0x81ED (Some (libfoo_elf [libfoo_dynamic, libfoo_verdef 1])))
     ''/usr/lib64/libfoo.so.1'' False
   \<noteq> Inr (0, [''libfoo.so.1(64bit)'', ''libfoo.so.1(LIBFOO_1.0)(64bit)''])"
  by (simp add: run_defs object_defs)

text \<open>
  Claim C1, amended. For that library, whatever its path and mode and in either order
  of its two sections, with the architecture marker off, the word-size marker on and
  soname-only mode off, provides-mode prints exactly
  \<^verbatim>\<open>libfoo.so.1(LIBFOO_1.0)(64bit)\<close> and then \<^verbatim>\<open>libfoo.so.1()(64bit)\<close>.
\<close>

theorem libfoo_provides:
  assumes "add_nonarch cfg" and "\<not> add_arch cfg" and "\<not> soname_only cfg"
    and "scns = [libfoo_dynamic, libfoo_verdef 1] \<or> scns = [libfoo_verdef 1, libfoo_dynamic]"
  shows "processFile cfg (one_file mode (Some (libfoo_elf scns))) fn False =
           Inr (0, [''libfoo.so.1(LIBFOO_1.0)(64bit)'', ''libfoo.so.1()(64bit)''])"
proof -
  have n: "\<not> skipSoname cfg ''libfoo.so.1''"
    by (simp add: skipSoname_def risspace_def rstreqn_def)
  have ad: "\<And>deps ver m. addDep cfg deps ''libfoo.so.1'' ver m =
      deps @ [if ver \<noteq> None \<or> m \<noteq> None
              then ''libfoo.so.1'' @ ''('' @ (case ver of Some v \<Rightarrow> v | None \<Rightarrow> []) @ '')'' @
                   (case m of Some x \<Rightarrow> x | None \<Rightarrow> [])
              else ''libfoo.so.1'']"
    using n by (simp add: addDep_def)
  note defs =
    processFile_def processFile_scan_def processFile_gnuhash_def processFile_soname_def
    processFile_interp_def processProgHeaders_def processProgHeaders_loop.simps
    processSections_def processDynamic_def processDynamic_loop.simps
    processDynamic_switch_def processVerDef_def processVerDef_loop.simps
    processVerDef_aux.simps genRequires_def addDeps_def ad mkmarker_def mkarchmarker_def
    elfInfo_zero_def const_defs EM_defs one_file_def libfoo_elf_def libfoo_dynamic_def
    libfoo_verdef_def libfoo_strptr_def no_data_def x86_64_dso_ehdr_def
  from assms(4) show ?thesis
  proof
    assume "scns = [libfoo_dynamic, libfoo_verdef 1]"
    then show ?thesis using assms(1-3) by (simp add: defs)
  next
    assume "scns = [libfoo_verdef 1, libfoo_dynamic]"
    then show ?thesis using assms(1-3) by (simp add: defs)
  qed
qed

theorem libfoo_provides_witness:
  "processFile default_config
     (one_file 0x81ED (Some (libfoo_elf [libfoo_dynamic, libfoo_verdef 1])))
     ''/usr/lib64/libfoo.so.1'' False =
   Inr (0, [''libfoo.so.1(LIBFOO_1.0)(64bit)'', ''libfoo.so.1()(64bit)''])"
  using libfoo_provides [of default_config "[libfoo_dynamic, libfoo_verdef 1]" "0x81ED"
          "''/usr/lib64/libfoo.so.1''"]
  by (simp add: default_config_def)

text \<open>
  Claim C5. Every auxiliary name of a record that is not the base is claimed to yield an
  entry of its own. The loop of \<^verbatim>\<open>processVerDef\<close> advances \<^verbatim>\<open>auxoffset\<close> only in the
  branch for the base record, so for another record it reads the first auxiliary entry
  \<^verbatim>\<open>vd_cnt\<close> times. Here the second record of \<^verbatim>\<open>libfoo.so.1\<close> has two auxiliary
  names, \<^verbatim>\<open>LIBFOO_1.0\<close> and \<^verbatim>\<open>LIBFOO_0.9\<close>: the first is printed twice and the
  second never.
\<close>

theorem processVerDef_repeats_first_aux:
  "processFile default_config
     (one_file 0x81ED (Some (libfoo_elf [libfoo_dynamic, libfoo_verdef 2])))
     ''/usr/lib64/libfoo.so.1'' False =
   Inr (0, [''libfoo.so.1(LIBFOO_1.0)(64bit)'', ''libfoo.so.1(LIBFOO_1.0)(64bit)'',
            ''libfoo.so.1()(64bit)''])"
  by (simp add: run_defs object_defs)

subsection \<open>The return code and the exit status\<close>

text \<open>
  Claim C2, as stated, fails. A file that opens and whose \<^verbatim>\<open>fstat\<close> succeeds, but which
  is not an ELF object, is claimed not to mark the run as failed. \<^verbatim>\<open>processFile\<close>
  leaves through \<^verbatim>\<open>goto exit\<close> with \<^verbatim>\<open>rc = 1\<close> for it, and \<^verbatim>\<open>main\<close> exits with
  \<^verbatim>\<open>EXIT_FAILURE\<close>.
\<close>

theorem not_elf_fails_run:
  "elf_kind not_elf \<noteq> ELF_K_ELF \<and>
   processFile default_config (one_file 0x81A4 (Some not_elf)) ''/etc/hosts'' False = Inr (1, []) \<and>
   main default_config (one_file 0x81A4 (Some not_elf)) False [''/etc/hosts''] = Inr (1, [])"
  by (simp add: main_def processFile_def one_file_def not_elf_def EXIT_FAILURE_def)

text \<open>
  Claim C2, amended. A path that opens and whose \<^verbatim>\<open>fstat\<close> succeeds but that is not
  recognized as an ELF object (\<^verbatim>\<open>elf_begin\<close> fails, or the kind is not
  \<^verbatim>\<open>ELF_K_ELF\<close>) prints nothing and returns 1, which marks the run as failed. An ELF
  object that is neither a shared object nor an executable prints nothing and returns
  0. When the run ends, the exit status is zero exactly when every path opened, had its
  \<^verbatim>\<open>fstat\<close> succeed, was of kind ELF and delivered its header; otherwise it is
  \<^verbatim>\<open>EXIT_FAILURE\<close>.
\<close>

theorem exit_status:
  "(fs fn = Some fd \<and> fstat fd \<noteq> None \<and>
      (elf_begin fd = None \<or> (\<exists>elf. elf_begin fd = Some elf \<and> elf_kind elf \<noteq> ELF_K_ELF))
    \<longrightarrow> processFile cfg fs fn dtype = Inr (1, [])) \<and>
   (fs fn = Some fd \<and> fstat fd \<noteq> None \<and> elf_begin fd = Some elf \<and> elf_kind elf = ELF_K_ELF \<and>
      gelf_getehdr elf = Some ehdr \<and> e_type ehdr \<noteq> ET_DYN \<and> e_type ehdr \<noteq> ET_EXEC
    \<longrightarrow> processFile cfg fs fn dtype = Inr (0, [])) \<and>
   (main cfg fs dtype paths = Inr (rc, out)
    \<longrightarrow> (rc = 0 \<longleftrightarrow> (\<forall>p \<in> set paths. passes_guards fs p)) \<and> (rc = 0 \<or> rc = EXIT_FAILURE))"
proof (intro conjI impI)
  assume "fs fn = Some fd \<and> fstat fd \<noteq> None \<and>
      (elf_begin fd = None \<or> (\<exists>elf. elf_begin fd = Some elf \<and> elf_kind elf \<noteq> ELF_K_ELF))"
  then show "processFile cfg fs fn dtype = Inr (1, [])"
    by (auto simp: processFile_def)
next
  assume a: "fs fn = Some fd \<and> fstat fd \<noteq> None \<and> elf_begin fd = Some elf \<and> elf_kind elf = ELF_K_ELF \<and>
      gelf_getehdr elf = Some ehdr \<and> e_type ehdr \<noteq> ET_DYN \<and> e_type ehdr \<noteq> ET_EXEC"
  then obtain m where m: "fstat fd = Some m" by auto
  from a have z: "processFile_scan cfg elf m ehdr = Inr elfInfo_zero"
    by (simp add: processFile_scan_zero)
  from a m show "processFile cfg fs fn dtype = Inr (0, [])"
    by (simp add: processFile_after_scan [OF _ m _ _ _ z] processFile_gnuhash_def
          processFile_soname_def processFile_interp_def elfInfo_zero_def)
next
  assume "main cfg fs dtype paths = Inr (rc, out)"
  then have "rc = (if \<forall>p \<in> set paths. passes_guards fs p then 0 else EXIT_FAILURE)"
    unfolding main_def by (rule main_loop_rc)
  then show "rc = 0 \<longleftrightarrow> (\<forall>p \<in> set paths. passes_guards fs p)"
    and "rc = 0 \<or> rc = EXIT_FAILURE"
    by (auto simp: EXIT_FAILURE_def)
qed

theorem exit_status_witness:
  "processFile default_config example_fs ''/etc/hosts'' False = Inr (1, []) \<and>
   processFile default_config example_fs ''/tmp/a.o'' False = Inr (0, []) \<and>
   main default_config example_fs False [''/tmp/a.o'', ''/etc/hosts''] = Inr (EXIT_FAILURE, []) \<and>
   \<not> (\<forall>p \<in> set [''/tmp/a.o'', ''/etc/hosts'']. passes_guards example_fs p)"
proof -
  let ?hosts = "\<lparr> fstat = Some 0x81A4, elf_begin = Some not_elf \<rparr>"
  let ?obj = "\<lparr> fstat = Some 0x81A4, elf_begin = Some reloc_elf \<rparr>"
  let ?ehdr = "\<lparr> ei_class = ELFCLASS64, ei_data = ELFDATA2LSB, e_type = 1,
                 e_machine = EM_X86_64, e_phnum = 0 \<rparr>"
  have h1: "example_fs ''/etc/hosts'' = Some ?hosts \<and> fstat ?hosts \<noteq> None \<and>
      (elf_begin ?hosts = None \<or> (\<exists>elf. elf_begin ?hosts = Some elf \<and> elf_kind elf \<noteq> ELF_K_ELF))"
    by (simp add: example_fs_def not_elf_def)
  have h2: "example_fs ''/tmp/a.o'' = Some ?obj \<and> fstat ?obj \<noteq> None \<and>
      elf_begin ?obj = Some reloc_elf \<and> elf_kind reloc_elf = ELF_K_ELF \<and>
      gelf_getehdr reloc_elf = Some ?ehdr \<and> e_type ?ehdr \<noteq> ET_DYN \<and> e_type ?ehdr \<noteq> ET_EXEC"
    by (simp add: example_fs_def reloc_elf_def ET_DYN_def ET_EXEC_def)
  note a = exit_status [of example_fs "''/etc/hosts''" ?hosts default_config False]
  note b = exit_status [of example_fs "''/tmp/a.o''" ?obj default_config False reloc_elf ?ehdr
                          "[''/tmp/a.o'', ''/etc/hosts'']"]
  from a h1 have r1: "processFile default_config example_fs ''/etc/hosts'' False = Inr (1, [])"
    by blast
  from b h2 have r2: "processFile default_config example_fs ''/tmp/a.o'' False = Inr (0, [])"
    by blast
  have m: "main default_config example_fs False [''/tmp/a.o'', ''/etc/hosts''] = Inr (EXIT_FAILURE, [])"
    by (simp add: main_def r1 r2)
  from b m have "\<not> (\<forall>p \<in> set [''/tmp/a.o'', ''/etc/hosts'']. passes_guards example_fs p)"
    by (simp add: EXIT_FAILURE_def)
  with r1 r2 m show ?thesis by blast
qed

subsection \<open>The policy gate, the loader token and the interpreter\<close>

text \<open>
  What the scan of the example object with an interpreter leaves behind, for a file
  without and with execute permission.
\<close>

lemma interp_elf_scan:
  "\<not> soname_only cfg \<Longrightarrow> add_nonarch cfg \<Longrightarrow> \<not> add_arch cfg \<Longrightarrow>
   processFile_scan cfg interp_elf 0x81A4 (x86_64_dso_ehdr 1) =
     Inr (elfInfo_zero\<lparr> marker := Some ''(64bit)'', archmarker := Some ''(x86_64)'',
            isDSO := True, interp := Some ''/lib64/ld-linux-x86-64.so.2'',
            gotGNUHASH := True \<rparr>)"
  by (simp add: run_defs object_defs)

lemma interp_elf_scan_exec:
  "\<not> soname_only cfg \<Longrightarrow> add_nonarch cfg \<Longrightarrow> \<not> add_arch cfg \<Longrightarrow> filter_soname cfg \<Longrightarrow>
   processFile_scan cfg interp_elf 0x81ED (x86_64_dso_ehdr 1) =
     Inr (elfInfo_zero\<lparr> marker := Some ''(64bit)'', archmarker := Some ''(x86_64)'',
            isDSO := True, isExec := 0x49, interp := Some ''/lib64/ld-linux-x86-64.so.2'',
            requires := [''libc.so.6()(64bit)'', ''libc.so.6(GLIBC_2.2.5)(64bit)''],
            gotGNUHASH := True \<rparr>)"
  by (simp add: run_defs object_defs)

lemma interp_elf_dynamic_table:
  "dynamic_table interp_elf =
     [\<lparr> d_tag = DT_NEEDED, d_val = 1 \<rparr>, \<lparr> d_tag = DT_GNU_HASH, d_val = 0x2a8 \<rparr>,
      \<lparr> d_tag = 0, d_val = 0 \<rparr>]"
  by (simp add: dynamic_table_def dyn_scanned.simps interp_elf_def interp_dynamic_def
        interp_verneed_def no_data_def SHT_DYNAMIC_def SHT_GNU_verneed_def)

text \<open>
  Claim C3, as stated, fails. A shared object without execute permission that carries
  an interpreter path is claimed to have an empty requires list. With the
  require-interpreter flag on, the list holds the interpreter path.
\<close>

theorem gate_closed_interp_counterexample:
  "e_type (x86_64_dso_ehdr 1) = ET_DYN \<and>
   (0x81A4 :: 32 word) AND (S_IXUSR OR S_IXGRP OR S_IXOTH) = 0 \<and>
   processFile (default_config\<lparr>require_interp := True\<rparr>) (one_file 0x81A4 (Some interp_elf))
     ''/usr/lib64/libbar.so'' True = Inr (0, [''/lib64/ld-linux-x86-64.so.2''])"
  by (simp add: run_defs object_defs)

text \<open>
  Claim C3, amended. For a shared object that has none of the execute permission bits
  and whose scan completes with an interpreter path \<open>p\<close>, requires-mode prints nothing
  when the require-interpreter flag is off, and exactly \<open>p\<close> when it is on: the gate
  suppresses the needed-library entries, the version-requirement entries and the
  loader token.
\<close>

theorem gate_closed_requires:
  assumes "fs fn = Some fd" and "fstat fd = Some st_mode" and "elf_begin fd = Some elf"
    and "elf_kind elf = ELF_K_ELF" and "gelf_getehdr elf = Some ehdr"
    and "e_type ehdr = ET_DYN"
    and "st_mode AND (S_IXUSR OR S_IXGRP OR S_IXOTH) = 0"
    and "processFile_scan cfg elf st_mode ehdr = Inr ei"
    and "interp ei = Some p"
  shows "processFile cfg fs fn True = Inr (0, if require_interp cfg then [p] else [])"
proof -
  have x: "isExec ei = 0"
    using processFile_scan_gate(1) [OF assms(8)] assms(6,7) by simp
  with assms(9) have g: "\<not> genRequires ei" by (simp add: genRequires_def)
  have r: "requires ei = []"
    using processFile_scan_gate(2) [OF assms(8) _ g] assms(6) by simp
  show ?thesis
    using g r assms(9)
    by (simp add: processFile_after_scan [where fs = fs and fn = fn, OF assms(1-5,8)]
          processFile_gnuhash_def processFile_interp_def)
qed

theorem gate_closed_requires_witness:
  "processFile (default_config\<lparr>require_interp := True\<rparr>) (one_file 0x81A4 (Some interp_elf))
     ''/usr/lib64/libbar.so'' True = Inr (0, [''/lib64/ld-linux-x86-64.so.2'']) \<and>
   processFile default_config (one_file 0x81A4 (Some interp_elf))
     ''/usr/lib64/libbar.so'' True = Inr (0, [])"
proof -
  let ?fd = "\<lparr> fstat = Some 0x81A4, elf_begin = Some interp_elf \<rparr>"
  let ?fs = "one_file 0x81A4 (Some interp_elf)"
  let ?ei = "elfInfo_zero\<lparr> marker := Some ''(64bit)'', archmarker := Some ''(x86_64)'',
            isDSO := True, interp := Some ''/lib64/ld-linux-x86-64.so.2'',
            gotGNUHASH := True \<rparr>"
  have 1: "?fs ''/usr/lib64/libbar.so'' = Some ?fd" by (simp add: one_file_def)
  have 2: "fstat ?fd = Some 0x81A4" by simp
  have 3: "elf_begin ?fd = Some interp_elf" by simp
  have 4: "elf_kind interp_elf = ELF_K_ELF" by (simp add: interp_elf_def)
  have 5: "gelf_getehdr interp_elf = Some (x86_64_dso_ehdr 1)" by (simp add: interp_elf_def)
  have 6: "e_type (x86_64_dso_ehdr 1) = ET_DYN" by (simp add: x86_64_dso_ehdr_def)
  have 7: "(0x81A4 :: 32 word) AND (S_IXUSR OR S_IXGRP OR S_IXOTH) = 0"
    by (simp add: S_IXUSR_def S_IXGRP_def S_IXOTH_def)
  have 8: "processFile_scan (default_config\<lparr>require_interp := True\<rparr>) interp_elf 0x81A4
             (x86_64_dso_ehdr 1) = Inr ?ei"
    by (rule interp_elf_scan) (simp_all add: default_config_def)
  have 9: "interp ?ei = Some ''/lib64/ld-linux-x86-64.so.2''" by simp
  have 10: "processFile_scan default_config interp_elf 0x81A4 (x86_64_dso_ehdr 1) = Inr ?ei"
    by (rule interp_elf_scan) (simp_all add: default_config_def)
  from gate_closed_requires [where fs = ?fs and fn = "''/usr/lib64/libbar.so''", OF 1 2 3 4 5 6 7 8 9]
    gate_closed_requires [where fs = ?fs and fn = "''/usr/lib64/libbar.so''", OF 1 2 3 4 5 6 7 10 9]
  show ?thesis by (simp add: default_config_def)
qed

text \<open>
  Claim C4, as stated, fails. The example object is a shared object whose dynamic table
  has \<^verbatim>\<open>DT_GNU_HASH\<close> and no \<^verbatim>\<open>DT_HASH\<close>. Without execute permission, since it
  carries an interpreter path, requires-mode with soname-only off prints nothing, so
  not the token \<^verbatim>\<open>rtld(GNU_HASH)\<close>.
\<close>

theorem gnu_hash_gate_closed:
  "DT_GNU_HASH \<in> d_tag ` set (dynamic_table interp_elf) \<and>
   DT_HASH \<notin> d_tag ` set (dynamic_table interp_elf) \<and>
   \<not> soname_only default_config \<and>
   processFile default_config (one_file 0x81A4 (Some interp_elf)) ''/usr/lib64/libbar.so'' True
     = Inr (0, [])"
proof -
  have "processFile default_config (one_file 0x81A4 (Some interp_elf)) ''/usr/lib64/libbar.so'' True
     = Inr (0, [])"
    by (simp add: run_defs object_defs)
  then show ?thesis
    by (simp add: interp_elf_dynamic_table default_config_def DT_NEEDED_def DT_HASH_def
          DT_GNU_HASH_def)
qed

text \<open>
  Claim C4, amended. For a shared object whose scan completes, whose dynamic table as
  scanned has an entry with \<^verbatim>\<open>DT_GNU_HASH\<close> and none with \<^verbatim>\<open>DT_HASH\<close>, and for which
  the policy gate is open (no interpreter path was found, or the file has an execute
  permission bit), requires-mode with soname-only off prints the token
  \<^verbatim>\<open>rtld(GNU_HASH)\<close>.
\<close>

theorem gnu_hash_requirement:
  assumes "fs fn = Some fd" and "fstat fd = Some st_mode" and "elf_begin fd = Some elf"
    and "elf_kind elf = ELF_K_ELF" and "gelf_getehdr elf = Some ehdr"
    and "e_type ehdr = ET_DYN"
    and "processFile_scan cfg elf st_mode ehdr = Inr ei"
    and "DT_GNU_HASH \<in> d_tag ` set (dynamic_table elf)"
    and "DT_HASH \<notin> d_tag ` set (dynamic_table elf)"
    and "\<not> soname_only cfg"
    and "interp ei = None \<or> st_mode AND (S_IXUSR OR S_IXGRP OR S_IXOTH) \<noteq> 0"
  shows "\<exists>out. processFile cfg fs fn True = Inr (0, out) \<and> ''rtld(GNU_HASH)'' \<in> set out"
proof -
  have "isExec ei = st_mode AND (S_IXUSR OR S_IXGRP OR S_IXOTH)"
    using processFile_scan_gate(1) [OF assms(7)] assms(6) by simp
  with assms(11) have g: "genRequires ei" by (auto simp: genRequires_def)
  have h: "gotGNUHASH ei" "\<not> gotHASH ei"
    using processFile_scan_hash_flags [OF assms(7)] assms(6,8,9) by simp_all
  show ?thesis
    using g h assms(10)
    by (simp add: processFile_after_scan [where fs = fs and fn = fn, OF assms(1-5,7)]
          processFile_gnuhash_def processFile_interp_def split: option.splits)
qed

theorem gnu_hash_requirement_witness:
  "processFile default_config (one_file 0x81ED (Some interp_elf)) ''/usr/lib64/libbar.so'' True =
     Inr (0, [''libc.so.6()(64bit)'', ''libc.so.6(GLIBC_2.2.5)(64bit)'', ''rtld(GNU_HASH)'']) \<and>
   ''rtld(GNU_HASH)'' \<in> set [''libc.so.6()(64bit)'', ''libc.so.6(GLIBC_2.2.5)(64bit)'', ''rtld(GNU_HASH)'']"
proof -
  let ?fd = "\<lparr> fstat = Some 0x81ED, elf_begin = Some interp_elf \<rparr>"
  let ?fs = "one_file 0x81ED (Some interp_elf)"
  let ?ei = "elfInfo_zero\<lparr> marker := Some ''(64bit)'', archmarker := Some ''(x86_64)'',
            isDSO := True, isExec := 0x49, interp := Some ''/lib64/ld-linux-x86-64.so.2'',
            requires := [''libc.so.6()(64bit)'', ''libc.so.6(GLIBC_2.2.5)(64bit)''],
            gotGNUHASH := True \<rparr>"
  have 1: "?fs ''/usr/lib64/libbar.so'' = Some ?fd" by (simp add: one_file_def)
  have 2: "fstat ?fd = Some 0x81ED" by simp
  have 3: "elf_begin ?fd = Some interp_elf" by simp
  have 4: "elf_kind interp_elf = ELF_K_ELF" by (simp add: interp_elf_def)
  have 5: "gelf_getehdr interp_elf = Some (x86_64_dso_ehdr 1)" by (simp add: interp_elf_def)
  have 6: "e_type (x86_64_dso_ehdr 1) = ET_DYN" by (simp add: x86_64_dso_ehdr_def)
  have 7: "processFile_scan default_config interp_elf 0x81ED (x86_64_dso_ehdr 1) = Inr ?ei"
    by (rule interp_elf_scan_exec) (simp_all add: default_config_def)
  have 8: "DT_GNU_HASH \<in> d_tag ` set (dynamic_table interp_elf)"
    by (simp add: interp_elf_dynamic_table)
  have 9: "DT_HASH \<notin> d_tag ` set (dynamic_table interp_elf)"
    by (simp add: interp_elf_dynamic_table DT_NEEDED_def DT_HASH_def DT_GNU_HASH_def)
  have 10: "\<not> soname_only default_config" by (simp add: default_config_def)
  have 12: "\<not> require_interp default_config" by (simp add: default_config_def)
  have 11: "interp ?ei = None \<or> (0x81ED :: 32 word) AND (S_IXUSR OR S_IXGRP OR S_IXOTH) \<noteq> 0"
    by (simp add: S_IXUSR_def S_IXGRP_def S_IXOTH_def)
  from gnu_hash_requirement [where fs = ?fs and fn = "''/usr/lib64/libbar.so''",
         OF 1 2 3 4 5 6 7 8 9 10 11]
  obtain out where o: "processFile default_config ?fs ''/usr/lib64/libbar.so'' True = Inr (0, out)"
    and t: "''rtld(GNU_HASH)'' \<in> set out" by blast
  have e: "processFile default_config ?fs ''/usr/lib64/libbar.so'' True =
      Inr (0, [''libc.so.6()(64bit)'', ''libc.so.6(GLIBC_2.2.5)(64bit)'', ''rtld(GNU_HASH)''])"
    using 10 12
    by (simp add: processFile_after_scan [where fs = ?fs and fn = "''/usr/lib64/libbar.so''", OF 1 2 3 4 5 7]
          processFile_gnuhash_def processFile_interp_def genRequires_def elfInfo_zero_def)
  from o e have "out = [''libc.so.6()(64bit)'', ''libc.so.6(GLIBC_2.2.5)(64bit)'', ''rtld(GNU_HASH)'']"
    by simp
  with t e show ?thesis by blast
qed



end
